theory Spec2Isabelle
  imports
    Complex_Main
    "HOL-Library.Word"
    "HOL-Library.Signed_Division"
    "HOL-Library.Char_ord"
    "HOL-Library.List_Lexorder"
    "HOL-Library.Log_Nat"
begin

unbundle bit_operations_syntax

section \<open>Configuration and its validation\<close>

text \<open>
  The configuration record of the logger package that has \<open>Validate\<close> (the file with
  \<open>LoggerConfig\<close>, \<open>Validate\<close>, \<open>InitLoggerFactoryByObj\<close> and \<open>initLoggerFactory\<close>).
  Go's \<open>int\<close> fields are read as their mathematical value (type \<open>int\<close>); \<open>Validate\<close> only
  compares them with constants, so no arithmetic can overflow here. Strings are byte strings.
\<close>

record LoggerConfig =
  LoggerName :: string
  Level :: string
  EnableConsoleLog :: bool
  EnableSyslog :: bool
  SyslogHost :: string
  SyslogPort :: int
  SyslogProtocol :: string
  OutputFolder :: string
  RotationBySize :: bool
  MaxFileSizeMB :: int
  MaxLogFiles :: int
  RotationIntervalHour :: int

text \<open>
  \<open>strings.ToLower\<close> on the ASCII range: the letters \<open>A\<close> to \<open>Z\<close> move up by 32, every other
  byte stays. (Go also lowers letters beyond ASCII; the words compared against below are
  ASCII.)
\<close>

definition lower_char :: "char \<Rightarrow> char" where
  "lower_char c =
     (if CHR ''A'' \<le> c \<and> c \<le> CHR ''Z'' then char_of (of_char c + (32::nat)) else c)"

definition ToLower :: "string \<Rightarrow> string" where
  "ToLower s = map lower_char s"

text \<open>The errors \<open>Validate\<close> builds with \<open>fmt.Errorf\<close>, one constructor per message.\<close>

datatype config_error =
    Empty_logger_name
  | Invalid_log_level string
  | Empty_syslog_host
  | Invalid_syslog_port int
  | Invalid_syslog_protocol string
  | Nonpositive_max_file_size
  | Nonpositive_rotation_interval
  | Nonpositive_max_log_files

text \<open>\<open>Validate\<close>: \<open>None\<close> is Go's \<open>nil\<close> error; the checks run in the source's order.\<close>

definition Validate :: "LoggerConfig \<Rightarrow> config_error option" where
  "Validate c =
     (if LoggerName c = [] then Some Empty_logger_name
      else let logLevel = ToLower (Level c) in
      if logLevel \<noteq> ''error'' \<and> logLevel \<noteq> ''info'' \<and> logLevel \<noteq> ''debug''
        then Some (Invalid_log_level (Level c))
      else if EnableSyslog c \<and> SyslogHost c = [] then Some Empty_syslog_host
      else if EnableSyslog c \<and> (SyslogPort c \<le> 0 \<or> SyslogPort c > 65535)
        then Some (Invalid_syslog_port (SyslogPort c))
      else if EnableSyslog c \<and>
              (let protocol = ToLower (SyslogProtocol c)
               in protocol \<noteq> ''udp'' \<and> protocol \<noteq> ''tcp'')
        then Some (Invalid_syslog_protocol (SyslogProtocol c))
      else if RotationBySize c \<and> MaxFileSizeMB c \<le> 0 then Some Nonpositive_max_file_size
      else if \<not> RotationBySize c \<and> RotationIntervalHour c \<le> 0
        then Some Nonpositive_rotation_interval
      else if MaxLogFiles c \<le> 0 then Some Nonpositive_max_log_files
      else None)"

text \<open>
  The minimal valid configuration of the specification: a name, level \<open>info\<close>, syslog
  disabled, rotation by size with maximum size 10, three retained files.
\<close>

definition minimal_config :: LoggerConfig where
  "minimal_config =
     \<lparr>LoggerName = ''app'', Level = ''info'', EnableConsoleLog = False,
      EnableSyslog = False, SyslogHost = [], SyslogPort = 0, SyslogProtocol = [],
      OutputFolder = ''logs'', RotationBySize = True, MaxFileSizeMB = 10,
      MaxLogFiles = 3, RotationIntervalHour = 0\<rparr>"

section \<open>The logger facade\<close>

text \<open>
  The severity thresholds, the sinks and the \<open>Logger\<close> struct. A sink that is \<open>nil\<close> is
  \<open>None\<close>. \<open>log.Logger\<close> is reduced to its prefix, its flags and whether its writer also
  copies to the console; \<open>srslog.Writer\<close> to what it was dialled with. The \<open>Destroy\<close> closure
  of the struct only closes the sinks and is left out.
\<close>

definition LogLevelError :: int where "LogLevelError = 0"
definition LogLevelInfo :: int where "LogLevelInfo = 1"
definition LogLevelDebug :: int where "LogLevelDebug = 2"

record std_logger =
  lg_prefix :: string
  lg_flags :: int
  lg_console :: bool

record syslog_writer =
  sw_network :: string
  sw_raddr :: string
  sw_tag :: string

record Logger =
  logger :: "std_logger option"
  prefix :: string
  syslogger :: "syslog_writer option"
  loglevel :: int

text \<open>
  What a method of the facade does is the list of calls it makes on its sinks, in program
  order: a severity-tagged send on the syslog writer, or a \<open>Printf\<close> on the \<open>log.Logger\<close>.
  Each call carries the composed format string and the operands \<open>v...\<close> as they are handed
  to \<open>fmt.Sprintf\<close> or \<open>Printf\<close>; the formatting of operands is the library's and is not
  modelled.
\<close>

datatype severity = Debug_sev | Info_sev | Err_sev

datatype sink_call =
    Syslog_send syslog_writer severity string "string list"
  | Logger_printf std_logger string "string list"

text \<open>
  \<open>getCallerFuncName\<close>. The runtime's answer for the frame two levels up is an input:
  no frame (\<open>runtime.Caller\<close> not ok), no function for the program counter, or the
  function's full name.
\<close>

datatype caller_frame = No_frame | No_func | Func string

definition LastIndex :: "string \<Rightarrow> char \<Rightarrow> int" where
  "LastIndex s c =
     (if c \<in> set s
      then int (length s) - 1 - int (length (takeWhile (\<lambda>x. x \<noteq> c) (rev s)))
      else - 1)"

definition getCallerFuncName :: "caller_frame \<Rightarrow> string" where
  "getCallerFuncName fr =
     (case fr of
        No_frame \<Rightarrow> ''unknown''
      | No_func \<Rightarrow> ''unknown''
      | Func name \<Rightarrow>
          let lastSlash = LastIndex name (CHR ''/'');
              name1 = (if lastSlash \<ge> 0 then drop (nat (lastSlash + 1)) name else name);
              dotIndex = LastIndex name1 (CHR ''.'')
          in if dotIndex \<ge> 0 then drop (nat (dotIndex + 1)) name1 else name1)"

definition Debugf :: "Logger \<Rightarrow> caller_frame \<Rightarrow> string \<Rightarrow> string list \<Rightarrow> sink_call list" where
  "Debugf l fr format v =
     (if loglevel l \<ge> LogLevelDebug then
        let caller = getCallerFuncName fr @ '': '' in
          (case syslogger l of
             None \<Rightarrow> []
           | Some sw \<Rightarrow> [Syslog_send sw Debug_sev (prefix l @ caller @ ''debug: '' @ format) v]) @
          (case logger l of
             None \<Rightarrow> []
           | Some lg \<Rightarrow> [Logger_printf lg (prefix l @ caller @ ''debug: '' @ format) v])
      else [])"

definition Infof :: "Logger \<Rightarrow> caller_frame \<Rightarrow> string \<Rightarrow> string list \<Rightarrow> sink_call list" where
  "Infof l fr format v =
     (if loglevel l \<ge> LogLevelInfo then
        let caller = (if loglevel l \<ge> LogLevelDebug then getCallerFuncName fr @ '': '' else [])
        in
          (case syslogger l of
             None \<Rightarrow> []
           | Some sw \<Rightarrow> [Syslog_send sw Info_sev (prefix l @ caller @ ''info: '' @ format) v]) @
          (case logger l of
             None \<Rightarrow> []
           | Some lg \<Rightarrow> [Logger_printf lg (prefix l @ caller @ ''info: '' @ format) v])
      else [])"

definition Errorf :: "Logger \<Rightarrow> caller_frame \<Rightarrow> string \<Rightarrow> string list \<Rightarrow> sink_call list" where
  "Errorf l fr format v =
     (let caller = (if loglevel l \<ge> LogLevelDebug then getCallerFuncName fr @ '': '' else [])
      in
        (case syslogger l of
           None \<Rightarrow> []
         | Some sw \<Rightarrow> [Syslog_send sw Err_sev (prefix l @ caller @ ''error: '' @ format) v]) @
        (case logger l of
           None \<Rightarrow> []
         | Some lg \<Rightarrow> [Logger_printf lg (prefix l @ caller @ ''error: '' @ format) v]))"

text \<open>The format string of a call, and the sink it goes to.\<close>

fun call_format :: "sink_call \<Rightarrow> string" where
  "call_format (Syslog_send sw sev f v) = f"
| "call_format (Logger_printf lg f v) = f"

datatype sink = Syslog_sink | Logger_sink

fun call_sink :: "sink_call \<Rightarrow> sink" where
  "call_sink (Syslog_send sw sev f v) = Syslog_sink"
| "call_sink (Logger_printf lg f v) = Logger_sink"

text \<open>The sinks of a view that are not \<open>nil\<close>, syslog first as every method visits them.\<close>

definition non_nil_sinks :: "Logger \<Rightarrow> sink list" where
  "non_nil_sinks l =
     (case syslogger l of None \<Rightarrow> [] | Some sw \<Rightarrow> [Syslog_sink]) @
     (case logger l of None \<Rightarrow> [] | Some lg \<Rightarrow> [Logger_sink])"

section \<open>The output directory\<close>

text \<open>
  The world of the file sink is one directory, the output folder: its entries by name, each
  a regular file (with its size in bytes) or a subdirectory. A path
  \<open>filepath.Join(logDir, name)\<close> is represented by \<open>name\<close>. What the operating system may
  refuse is an input too: \<open>faults\<close> lists the operations that fail. \<open>stdout\<close> collects what the
  code prints with \<open>fmt.Printf\<close> and \<open>fmt.Println\<close>, its diagnostic stream, oldest first.
\<close>

datatype node = Regular nat | Directory

fun IsDir :: "node \<Rightarrow> bool" where
  "IsDir Directory = True"
| "IsDir (Regular n) = False"

datatype fault =
    Fail_readdir
  | Fail_remove string
  | Fail_close
  | Fail_rename string
  | Fail_open string
  | Fail_mkdir
  | Fail_dial

datatype report =
    Failed_to_read_folder
  | Failed_to_delete string
  | Failed_to_close
  | Failed_to_rotate
  | Rotating_by_time
  | Invalid_syslog_protocol_msg string
  | Failed_to_connect_syslog

record world =
  entries :: "(string \<times> node) list"
  faults :: "fault set"
  stdout :: "report list"

definition print :: "report \<Rightarrow> world \<Rightarrow> world" where
  "print r w = w\<lparr>stdout := stdout w @ [r]\<rparr>"

text \<open>\<open>os.ReadDir\<close>: the entries sorted by file name, or an error (\<open>None\<close>).\<close>

definition ReadDir :: "world \<Rightarrow> (string \<times> node) list option" where
  "ReadDir w = (if Fail_readdir \<in> faults w then None else Some (sort_key fst (entries w)))"

text \<open>
  \<open>os.Remove\<close> of an entry: refused by the system, or the entry is missing, or it is a
  subdirectory (whose content, which decides whether it can go, is not part of the world).
\<close>

definition Remove :: "world \<Rightarrow> string \<Rightarrow> world option" where
  "Remove w name =
     (if Fail_remove name \<in> faults w then None
      else case map_of (entries w) name of
             None \<Rightarrow> None
           | Some Directory \<Rightarrow> None
           | Some (Regular n) \<Rightarrow> Some (w\<lparr>entries := filter (\<lambda>e. fst e \<noteq> name) (entries w)\<rparr>))"

text \<open>
  \<open>os.Rename\<close> of a regular file inside the directory: an existing regular file under the
  new name is replaced; a subdirectory under the new name, a missing source or a refusal
  by the system is an error.
\<close>

definition Rename :: "world \<Rightarrow> string \<Rightarrow> string \<Rightarrow> world option" where
  "Rename w old new =
     (if Fail_rename old \<in> faults w then None
      else case map_of (entries w) old of
             None \<Rightarrow> None
           | Some Directory \<Rightarrow> None
           | Some (Regular n) \<Rightarrow>
               if map_of (entries w) new = Some Directory then None
               else if old = new then Some w
               else Some (w\<lparr>entries :=
                      map (\<lambda>e. if fst e = old then (new, snd e) else e)
                        (filter (\<lambda>e. fst e \<noteq> new) (entries w))\<rparr>))"

text \<open>
  An open file: \<open>os.File\<close> as a handle that is open or closed, with the size of the file
  it refers to (what \<open>Stat\<close> reports).
\<close>

record os_File =
  closed :: bool
  file_size :: nat

text \<open>\<open>os.OpenFile\<close> with \<open>O_APPEND|O_CREATE|O_WRONLY\<close>: an absent file is created empty.\<close>

definition OpenFile :: "world \<Rightarrow> string \<Rightarrow> (world \<times> os_File) option" where
  "OpenFile w name =
     (if Fail_open name \<in> faults w then None
      else case map_of (entries w) name of
             None \<Rightarrow> Some (w\<lparr>entries := entries w @ [(name, Regular 0)]\<rparr>,
                            \<lparr>closed = False, file_size = 0\<rparr>)
           | Some Directory \<Rightarrow> None
           | Some (Regular n) \<Rightarrow> Some (w, \<lparr>closed = False, file_size = n\<rparr>))"

text \<open>
  \<open>Close\<close>: an error (\<open>False\<close>) on a handle already closed or when the system reports one;
  the handle is closed afterwards either way.
\<close>

definition Close :: "world \<Rightarrow> os_File \<Rightarrow> bool \<times> os_File" where
  "Close w f = (\<not> closed f \<and> Fail_close \<notin> faults w, f\<lparr>closed := True\<rparr>)"

definition Stat :: "os_File \<Rightarrow> nat option" where
  "Stat f = (if closed f then None else Some (file_size f))"

text \<open>How the process can stop: a runtime panic, or \<open>log.Fatalf\<close>.\<close>

datatype abort =
    Reslice_past_length
  | Nil_dereference
  | Divide_by_zero
  | Fatal_invalid_configuration config_error
  | Fatal_create_directory
  | Fatal_open_log_file

section \<open>Retention cleanup\<close>

text \<open>
  \<open>cleanupLogFiles\<close>. The first loop collects the names of the entries that are not named
  \<open>kodo.log\<close> and are not directories.
\<close>

definition collect_logFiles :: "(string \<times> node) list \<Rightarrow> string list" where
  "collect_logFiles files =
     map fst (filter (\<lambda>file. fst file \<noteq> ''kodo.log'' \<and> \<not> IsDir (snd file)) files)"

text \<open>The second loop removes each file of \<open>filesToDelete\<close>, printing a failure and going on.\<close>

fun remove_filesToDelete :: "world \<Rightarrow> string list \<Rightarrow> world" where
  "remove_filesToDelete w [] = w"
| "remove_filesToDelete w (file # rest) =
     (case Remove w file of
        None \<Rightarrow> remove_filesToDelete (print (Failed_to_delete file) w) rest
      | Some w' \<Rightarrow> remove_filesToDelete w' rest)"

text \<open>
  The sorted names and the slice \<open>filesToDelete = logFiles[:len(logFiles)-maxLogFiles]\<close>.
  With a negative \<open>maxLogFiles\<close> the slice expression asks for more than the length: Go
  panics, or reads on into spare capacity of the slice. The model stops there with
  \<open>Reslice_past_length\<close>.
\<close>

definition filesToDelete :: "(string \<times> node) list \<Rightarrow> int \<Rightarrow> string list" where
  "filesToDelete files maxLogFiles =
     (let logFiles = sort (collect_logFiles files)
      in take (length logFiles - nat maxLogFiles) logFiles)"

definition cleanupLogFiles :: "world \<Rightarrow> int \<Rightarrow> abort + world" where
  "cleanupLogFiles w maxLogFiles =
     (case ReadDir w of
        None \<Rightarrow> Inr (print Failed_to_read_folder w)
      | Some files \<Rightarrow>
          let logFiles = sort (collect_logFiles files) in
          if int (length logFiles) > maxLogFiles then
            if maxLogFiles < 0 then Inl Reslice_past_length
            else Inr (remove_filesToDelete w (filesToDelete files maxLogFiles))
          else Inr w)"

section \<open>Rotation\<close>

text \<open>
  Wall-clock time as \<open>time.Now()\<close> reports it, reduced to the fields the code reads.
  \<open>decimal\<close> and \<open>appendInt\<close> are the zero-padded decimal fields of \<open>Time.Format\<close>; the
  layout \<open>20060102-15\<close> is year, month, day, a hyphen, hour.
\<close>

record clock_time =
  Year :: nat
  Month :: nat
  Day :: nat
  Hour :: nat

definition digit_char :: "nat \<Rightarrow> char" where
  "digit_char d = char_of (48 + d)"

fun decimal :: "nat \<Rightarrow> string" where
  "decimal n = (if n < 10 then [digit_char n] else decimal (n div 10) @ [digit_char (n mod 10)])"

declare decimal.simps [simp del]

definition appendInt :: "nat \<Rightarrow> nat \<Rightarrow> string" where
  "appendInt x width = replicate (width - length (decimal x)) (CHR ''0'') @ decimal x"

definition Format_20060102_15 :: "clock_time \<Rightarrow> string" where
  "Format_20060102_15 t =
     appendInt (Year t) 4 @ appendInt (Month t) 2 @ appendInt (Day t) 2 @ ''-'' @
     appendInt (Hour t) 2"

text \<open>
  \<open>rotateLogFile\<close>. A failing \<open>Close\<close> is printed and ends the function. A failing rename
  is printed and the function goes on. A failing open is printed too, but then
  \<open>*logFile = *newLogFile\<close> dereferences a nil pointer: the result is the panic, and
  the printed line goes with the process.
\<close>

definition rotatedFileName :: "string \<Rightarrow> clock_time \<Rightarrow> string" where
  "rotatedFileName fileName now = fileName @ ''.'' @ Format_20060102_15 now"

definition rotateLogFile ::
  "world \<Rightarrow> os_File \<Rightarrow> string \<Rightarrow> clock_time \<Rightarrow> abort + (world \<times> os_File)" where
  "rotateLogFile w logFile fileName now =
     (case Close w logFile of
        (False, lf) \<Rightarrow> Inr (print Failed_to_close w, lf)
      | (True, lf) \<Rightarrow>
          let w1 = (case Rename w fileName (rotatedFileName fileName now) of
                      None \<Rightarrow> print Failed_to_rotate w
                    | Some w' \<Rightarrow> w')
          in (case OpenFile w1 fileName of
                None \<Rightarrow> Inl Nil_dereference
              | Some (w2, newLogFile) \<Rightarrow> Inr (w2, newLogFile)))"

text \<open>
  \<open>time.Duration\<close> is a signed 64-bit count of nanoseconds; multiplication wraps around.
  \<open>initLoggerFactory\<close> computes \<open>time.Duration(logRotationIntervalHour) * time.Hour\<close>.
\<close>

type_synonym Duration = "64 word"

definition time_Hour :: Duration where
  "time_Hour = 3600000000000"

definition logRotationInterval :: "int \<Rightarrow> Duration" where
  "logRotationInterval logRotationIntervalHour = word_of_int logRotationIntervalHour * time_Hour"

text \<open>
  \<open>Duration.Hours\<close> returns a \<open>float64\<close>:
  \<open>float64(hour) + float64(nsec)/(60*60*1e9)\<close> with \<open>hour = d / Hour\<close> and
  \<open>nsec = d % Hour\<close> (both truncating). The values are rationals here, and
  \<open>round_float64\<close> rounds to the nearest number with a 53-bit significand, ties to even;
  every value met is in the normal range of \<open>float64\<close>. The conversion \<open>int(...)\<close> drops the
  fraction.
\<close>

definition pow2 :: "int \<Rightarrow> rat" where
  "pow2 e = (if 0 \<le> e then 2 ^ nat e else 1 / 2 ^ nat (- e))"

definition ilog2 :: "rat \<Rightarrow> int" where
  "ilog2 x =
     (let (a, b) = quotient_of x;
          k = bitlen a - bitlen b
      in if pow2 k \<le> x then k else k - 1)"

definition round_half_even :: "rat \<Rightarrow> int" where
  "round_half_even y =
     (let f = \<lfloor>y\<rfloor>; d = y - of_int f
      in if d < 1 / 2 then f else if 1 / 2 < d then f + 1 else if even f then f else f + 1)"

definition round_float64 :: "rat \<Rightarrow> rat" where
  "round_float64 x =
     (if x = 0 then 0
      else let u = pow2 (ilog2 \<bar>x\<bar> - 52) in of_int (round_half_even (x / u)) * u)"

definition Hours :: "Duration \<Rightarrow> rat" where
  "Hours d =
     (let hour = sint d sdiv sint time_Hour;
          nsec = sint d smod sint time_Hour
      in round_float64
           (round_float64 (of_int hour) +
            round_float64 (round_float64 (of_int nsec) / 3600000000000)))"

definition int_of_float64 :: "rat \<Rightarrow> int" where
  "int_of_float64 x = (if 0 \<le> x then \<lfloor>x\<rfloor> else \<lceil>x\<rceil>)"

text \<open>
  The body of the rotation goroutine of \<open>createCustomFileLogger\<close>. Its variables are the
  world, the handle \<open>logFile\<close> and \<open>lastHour\<close>. It starts with a cleanup and a reading of the
  hour; one pass of its loop takes the flag \<open>quitRotation\<close> and the clock readings as
  inputs (the reading in the loop and the one inside \<open>rotateLogFile\<close>). Go's \<open>%\<close> truncates
  (\<open>smod\<close>) and panics on a zero divisor. The sleeps are not modelled.
\<close>

record task =
  fs :: world
  logFile :: os_File
  lastHour :: int

datatype pass = Returned | Aborted abort | Continue task

definition rotate_then_cleanup ::
  "world \<Rightarrow> os_File \<Rightarrow> string \<Rightarrow> int \<Rightarrow> clock_time \<Rightarrow> abort + (world \<times> os_File)" where
  "rotate_then_cleanup w lf fileName maxLogFiles now =
     (case rotateLogFile w lf fileName now of
        Inl a \<Rightarrow> Inl a
      | Inr (w1, lf1) \<Rightarrow>
          (case cleanupLogFiles w1 maxLogFiles of
             Inl a \<Rightarrow> Inl a
           | Inr w2 \<Rightarrow> Inr (w2, lf1)))"

definition rotation_start :: "world \<Rightarrow> os_File \<Rightarrow> int \<Rightarrow> clock_time \<Rightarrow> abort + task" where
  "rotation_start w lf maxLogFiles now =
     (case cleanupLogFiles w maxLogFiles of
        Inl a \<Rightarrow> Inl a
      | Inr w1 \<Rightarrow> Inr \<lparr>fs = w1, logFile = lf, lastHour = int (Hour now)\<rparr>)"

definition rotation_pass ::
  "bool \<Rightarrow> bool \<Rightarrow> int \<Rightarrow> int \<Rightarrow> Duration \<Rightarrow> string \<Rightarrow> clock_time \<Rightarrow> clock_time \<Rightarrow> task \<Rightarrow> pass"
  where
  "rotation_pass quitRotation rotateBySize maxSize maxLogFiles rotationInterval fileName
      now now_rotate t =
     (if quitRotation then Returned
      else if rotateBySize then
        (case Stat (logFile t) of
           None \<Rightarrow> Continue t
         | Some sz \<Rightarrow>
             if int sz \<ge> maxSize then
               (case rotate_then_cleanup (fs t) (logFile t) fileName maxLogFiles now_rotate of
                  Inl a \<Rightarrow> Aborted a
                | Inr (w, lf) \<Rightarrow> Continue (t\<lparr>fs := w, logFile := lf\<rparr>))
             else Continue t)
      else
        let currentHour = int (Hour now) in
        if currentHour \<noteq> lastHour t then
          if int_of_float64 (Hours rotationInterval) = 0 then Aborted Divide_by_zero
          else if currentHour smod int_of_float64 (Hours rotationInterval) = 0 then
            (case rotate_then_cleanup (print Rotating_by_time (fs t)) (logFile t) fileName
                    maxLogFiles now_rotate of
               Inl a \<Rightarrow> Aborted a
             | Inr (w, lf) \<Rightarrow> Continue \<lparr>fs = w, logFile = lf, lastHour = currentHour\<rparr>)
          else Continue (t\<lparr>lastHour := currentHour\<rparr>)
        else Continue t)"

section \<open>The factories\<close>

text \<open>
  \<open>createSysLogger\<close>: the protocol is compared as given (not lower-cased); an unknown
  protocol or a failed dial prints a line and yields no writer. The address is
  \<open>fmt.Sprintf("%s:%d", host, port)\<close>.
\<close>

definition show_int :: "int \<Rightarrow> string" where
  "show_int i = (if i < 0 then ''-'' @ decimal (nat (- i)) else decimal (nat i))"

definition createSysLogger ::
  "world \<Rightarrow> string \<Rightarrow> string \<Rightarrow> int \<Rightarrow> string \<Rightarrow> world \<times> syslog_writer option" where
  "createSysLogger w loggerName host port protocol =
     (if protocol \<noteq> ''udp'' \<and> protocol \<noteq> ''tcp''
        then (print (Invalid_syslog_protocol_msg protocol) w, None)
      else if Fail_dial \<in> faults w then (print Failed_to_connect_syslog w, None)
      else (w, Some \<lparr>sw_network = protocol, sw_raddr = host @ '':'' @ show_int port,
                      sw_tag = loggerName\<rparr>))"

text \<open>The flags of package \<open>log\<close>.\<close>

definition Ldate :: int where "Ldate = 1"
definition Ltime :: int where "Ltime = 2"
definition Llongfile :: int where "Llongfile = 8"
definition Lshortfile :: int where "Lshortfile = 16"
definition Lmsgprefix :: int where "Lmsgprefix = 64"
definition LstdFlags :: int where "LstdFlags = Ldate OR Ltime"

text \<open>
  The start of a line that \<open>log.Logger\<close> writes: its prefix comes first unless the flag
  \<open>Lmsgprefix\<close> is set; \<open>header\<close> is the date, time and file part that the flags select,
  \<open>message\<close> the formatted message.
\<close>

definition Output_line :: "std_logger \<Rightarrow> string \<Rightarrow> string \<Rightarrow> string" where
  "Output_line lg header message =
     (if lg_flags lg AND Lmsgprefix = 0 then lg_prefix lg @ header @ message
      else header @ lg_prefix lg @ message)"

text \<open>
  \<open>createCustomFileLogger\<close> of the package with \<open>Validate\<close>: the main log file is
  \<open>loggerName + ".log"\<close> in the output folder. Failing to make the folder or to open the file
  is fatal. The logger it returns has the prefix \<open>loggerName + ": "\<close> and the standard flags
  without the file flags. Its other parameters (rotation mode, sizes, interval) only feed
  the goroutine, which is \<open>rotation_start\<close> and \<open>rotation_pass\<close> above; starting it
  concurrently is not modelled.
\<close>

definition main_fileName :: "string \<Rightarrow> string" where
  "main_fileName loggerName = loggerName @ ''.log''"

definition createCustomFileLogger ::
  "world \<Rightarrow> string \<Rightarrow> bool \<Rightarrow> abort + (world \<times> std_logger \<times> os_File)" where
  "createCustomFileLogger w loggerName enableConsoleLog =
     (if Fail_mkdir \<in> faults w then Inl Fatal_create_directory
      else case OpenFile w (main_fileName loggerName) of
             None \<Rightarrow> Inl Fatal_open_log_file
           | Some (w1, lf) \<Rightarrow>
               Inr (w1,
                    \<lparr>lg_prefix = loggerName @ '': '',
                     lg_flags = (LstdFlags OR Lshortfile) AND NOT (Lshortfile OR Llongfile),
                     lg_console = enableConsoleLog\<rparr>,
                    lf))"

text \<open>
  The \<open>switch\<close> on the lower-cased level with which both factories start: an unknown
  level counts as \<open>info\<close>.
\<close>

definition switch_loglevel :: "string \<Rightarrow> int" where
  "switch_loglevel logLevel =
     (let loglevellc = ToLower logLevel
      in if loglevellc = ''debug'' then LogLevelDebug
         else if loglevellc = ''info'' then LogLevelInfo
         else if loglevellc = ''error'' then LogLevelError
         else LogLevelInfo)"

text \<open>
  \<open>initLoggerFactory\<close>: the result is the constructor closure. Each call of the closure
  copies \<open>myLogger\<close> and sets the copy's prefix.
\<close>

definition initLoggerFactory ::
  "world \<Rightarrow> string \<Rightarrow> string \<Rightarrow> string \<Rightarrow> bool \<Rightarrow> int \<Rightarrow> int \<Rightarrow> int \<Rightarrow> bool \<Rightarrow> bool \<Rightarrow>
   string \<Rightarrow> int \<Rightarrow> string \<Rightarrow> abort + (world \<times> (string \<Rightarrow> Logger))" where
  "initLoggerFactory w loggerName logLevel logOutputFolder logRotationBySize logMaxFileSize
      logMaxFiles logRotationIntervalHour enableConsoleLog enableSyslog syslogHost
      syslogPort syslogProtocol =
     (let lvl = switch_loglevel logLevel
      in case createCustomFileLogger w loggerName enableConsoleLog of
           Inl a \<Rightarrow> Inl a
         | Inr (w1, lg, lf) \<Rightarrow>
             (let (w2, sw) =
                    (if enableSyslog
                     then createSysLogger w1 loggerName syslogHost syslogPort syslogProtocol
                     else (w1, None));
                  myLogger = \<lparr>logger = Some lg, prefix = [], syslogger = sw, loglevel = lvl\<rparr>
              in Inr (w2,
                      \<lambda>logPrefix. myLogger\<lparr>prefix :=
                         (if logPrefix \<noteq> [] then logPrefix @ '': '' else [])\<rparr>)))"

definition InitLoggerFactoryByObj ::
  "world \<Rightarrow> LoggerConfig \<Rightarrow> abort + (world \<times> (string \<Rightarrow> Logger))" where
  "InitLoggerFactoryByObj w loggerCfg =
     (case Validate loggerCfg of
        Some err \<Rightarrow> Inl (Fatal_invalid_configuration err)
      | None \<Rightarrow>
          initLoggerFactory w (LoggerName loggerCfg) (Level loggerCfg) (OutputFolder loggerCfg)
            (RotationBySize loggerCfg) (MaxFileSizeMB loggerCfg) (MaxLogFiles loggerCfg)
            (RotationIntervalHour loggerCfg) (EnableConsoleLog loggerCfg)
            (EnableSyslog loggerCfg) (SyslogHost loggerCfg) (SyslogPort loggerCfg)
            (SyslogProtocol loggerCfg))"

text \<open>
  The retention set in the words of the specification: the names in the output directory
  other than the live main log file (and other than subdirectories), in lexicographic
  order. This definition follows the specification, not \<open>cleanupLogFiles\<close>.
\<close>

definition retention_set :: "string \<Rightarrow> world \<Rightarrow> string list" where
  "retention_set loggerName w =
     sort (map fst (filter (\<lambda>e. fst e \<noteq> main_fileName loggerName \<and> \<not> IsDir (snd e)) (entries w)))"

text \<open>
  The timestamp suffix in the words of the specification, \<open>YYYYMMDDHH\<close>: four digits of
  year, two of month, two of day, two of hour, and nothing else. This definition follows
  the specification, not \<open>rotateLogFile\<close>.
\<close>

definition spec_YYYYMMDDHH :: "clock_time \<Rightarrow> string" where
  "spec_YYYYMMDDHH t =
     appendInt (Year t) 4 @ appendInt (Month t) 2 @ appendInt (Day t) 2 @ appendInt (Hour t) 2"

section \<open>The package in logger/logger.go\<close>

text \<open>
  The repository holds a second logger package, \<open>logger/logger.go\<close>, with the exported
  \<open>InitLoggerFactory\<close>. Its \<open>cleanupLogFiles\<close>, \<open>rotateLogFile\<close>, \<open>createSysLogger\<close> and
  rotation goroutine are the same text as above. Its \<open>Logger\<close> has no prefix field, its
  methods compose no prefix and no caller name, its main log file is \<open>kodo.log\<close>, and its
  constructor closure sets the prefix of the shared \<open>log.Logger\<close> and returns the shared
  \<open>Logger\<close> itself. Its names carry the suffix \<open>_v1\<close> where they clash.
\<close>

record Logger_v1 =
  logger_v1 :: "std_logger option"
  syslogger_v1 :: "syslog_writer option"
  loglevel_v1 :: int

definition Debugf_v1 :: "Logger_v1 \<Rightarrow> string \<Rightarrow> string list \<Rightarrow> sink_call list" where
  "Debugf_v1 l format v =
     (if loglevel_v1 l \<ge> LogLevelDebug then
        (case syslogger_v1 l of
           None \<Rightarrow> []
         | Some sw \<Rightarrow> [Syslog_send sw Debug_sev (''debug: '' @ format) v]) @
        (case logger_v1 l of
           None \<Rightarrow> []
         | Some lg \<Rightarrow> [Logger_printf lg (''debug: '' @ format) v])
      else [])"

definition Infof_v1 :: "Logger_v1 \<Rightarrow> string \<Rightarrow> string list \<Rightarrow> sink_call list" where
  "Infof_v1 l format v =
     (if loglevel_v1 l \<ge> LogLevelInfo then
        (case syslogger_v1 l of
           None \<Rightarrow> []
         | Some sw \<Rightarrow> [Syslog_send sw Info_sev (''info: '' @ format) v]) @
        (case logger_v1 l of
           None \<Rightarrow> []
         | Some lg \<Rightarrow> [Logger_printf lg (''info: '' @ format) v])
      else [])"

definition Errorf_v1 :: "Logger_v1 \<Rightarrow> string \<Rightarrow> string list \<Rightarrow> sink_call list" where
  "Errorf_v1 l format v =
     (case syslogger_v1 l of
        None \<Rightarrow> []
      | Some sw \<Rightarrow> [Syslog_send sw Err_sev (''error: '' @ format) v]) @
     (case logger_v1 l of
        None \<Rightarrow> []
      | Some lg \<Rightarrow> [Logger_printf lg (''error: '' @ format) v])"

definition createCustomFileLogger_v1 ::
  "world \<Rightarrow> string \<Rightarrow> bool \<Rightarrow> abort + (world \<times> std_logger \<times> os_File)" where
  "createCustomFileLogger_v1 w loggerName enableConsoleLog =
     (if Fail_mkdir \<in> faults w then Inl Fatal_create_directory
      else case OpenFile w ''kodo.log'' of
             None \<Rightarrow> Inl Fatal_open_log_file
           | Some (w1, lf) \<Rightarrow>
               Inr (w1,
                    \<lparr>lg_prefix = loggerName @ '': '', lg_flags = LstdFlags OR Lshortfile,
                     lg_console = enableConsoleLog\<rparr>,
                    lf))"

definition InitLoggerFactory ::
  "world \<Rightarrow> string \<Rightarrow> string \<Rightarrow> string \<Rightarrow> bool \<Rightarrow> int \<Rightarrow> int \<Rightarrow> int \<Rightarrow> bool \<Rightarrow> bool \<Rightarrow>
   string \<Rightarrow> int \<Rightarrow> string \<Rightarrow> abort + (world \<times> (string \<Rightarrow> Logger_v1))" where
  "InitLoggerFactory w loggerName logLevel logOutputFolder logRotationBySize logMaxFileSize
      logMaxFiles logRotationIntervalHour enableConsoleLog enableSyslog syslogHost
      syslogPort syslogProtocol =
     (let lvl = switch_loglevel logLevel
      in case createCustomFileLogger_v1 w loggerName enableConsoleLog of
           Inl a \<Rightarrow> Inl a
         | Inr (w1, lg, lf) \<Rightarrow>
             (let (w2, sw) =
                    (if enableSyslog
                     then createSysLogger w1 loggerName syslogHost syslogPort syslogProtocol
                     else (w1, None))
              in Inr (w2,
                      \<lambda>logPrefix. \<lparr>logger_v1 = Some (lg\<lparr>lg_prefix := logPrefix @ '': ''\<rparr>),
                                   syslogger_v1 = sw, loglevel_v1 = lvl\<rparr>)))"

section \<open>Example inputs\<close>

text \<open>Concrete inputs on which the results below are evaluated.\<close>

definition empty_world :: world where
  "empty_world = \<lparr>entries = [], faults = {}, stdout = []\<rparr>"

definition file_only_view :: "int \<Rightarrow> Logger" where
  "file_only_view lvl =
     \<lparr>logger = Some \<lparr>lg_prefix = ''svc: '', lg_flags = 3, lg_console = False\<rparr>,
      prefix = ''db: '', syslogger = None, loglevel = lvl\<rparr>"


text \<open>
  The output folder of a logger named \<open>app\<close> with its live file and two rotated files,
  and the folder of a logger named \<open>kodo\<close> with five rotated files, the oldest of which the
  system refuses to delete.
\<close>

definition app_folder :: world where
  "app_folder =
     \<lparr>entries = [(''app.log'', Regular 120), (''app.log.20240305-07'', Regular 4096),
                 (''app.log.20240305-08'', Regular 4096)],
      faults = {}, stdout = []\<rparr>"

definition kodo_folder :: world where
  "kodo_folder =
     \<lparr>entries = [(''kodo.log'', Regular 120),
                 (''kodo.log.20240305-03'', Regular 4096),
                 (''kodo.log.20240305-04'', Regular 4096),
                 (''kodo.log.20240305-05'', Regular 4096),
                 (''kodo.log.20240305-06'', Regular 4096),
                 (''kodo.log.20240305-07'', Regular 4096)],
      faults = {Fail_remove ''kodo.log.20240305-03''}, stdout = []\<rparr>"

text \<open>A clock reading, 5 March 2024 between 7 and 8, and an open handle.\<close>

definition march_5th_7h :: clock_time where
  "march_5th_7h = \<lparr>Year = 2024, Month = 3, Day = 5, Hour = 7\<rparr>"

definition open_handle :: os_File where
  "open_handle = \<lparr>closed = False, file_size = 120\<rparr>"

section \<open>Validation: results\<close>


lemma ToLower_info: "ToLower ''info'' = ''info''"
  by code_simp





section \<open>The logger facade: results\<close>


lemma Debugf_sinks:
  "LogLevelDebug \<le> loglevel l \<Longrightarrow> map call_sink (Debugf l fr f v) = non_nil_sinks l"
  by (simp add: Debugf_def non_nil_sinks_def Let_def split: option.splits)

lemma Debugf_suppressed: "loglevel l < LogLevelDebug \<Longrightarrow> Debugf l fr f v = []"
  by (simp add: Debugf_def)

lemma Infof_sinks:
  "LogLevelInfo \<le> loglevel l \<Longrightarrow> map call_sink (Infof l fr f v) = non_nil_sinks l"
  by (simp add: Infof_def non_nil_sinks_def Let_def split: option.splits)

lemma Infof_suppressed: "loglevel l < LogLevelInfo \<Longrightarrow> Infof l fr f v = []"
  by (simp add: Infof_def)

lemma Errorf_sinks: "map call_sink (Errorf l fr f v) = non_nil_sinks l"
  by (simp add: Errorf_def non_nil_sinks_def Let_def split: option.splits)

lemma initLoggerFactory_view:
  assumes "initLoggerFactory w loggerName logLevel folder bySize maxSize maxFiles hours
             console sys host port proto = Inr (w', newLogger)"
  shows "prefix (newLogger p) = (if p \<noteq> [] then p @ '': '' else [])"
    and "loglevel (newLogger p) = switch_loglevel logLevel"
    and "logger (newLogger p) \<noteq> None"
  using assms
  unfolding initLoggerFactory_def Let_def
  by (auto split: sum.splits prod.splits if_splits)

lemma switch_loglevel_debug: "ToLower logLevel = ''debug'' \<Longrightarrow> switch_loglevel logLevel = 2"
  by (simp add: switch_loglevel_def LogLevelDebug_def)

lemma switch_loglevel_error: "ToLower logLevel = ''error'' \<Longrightarrow> switch_loglevel logLevel = 0"
  by (simp add: switch_loglevel_def LogLevelError_def)

text \<open>
  Claim C5. A view built by the factory with level debug makes, in each of \<open>Debugf\<close>,
  \<open>Infof\<close> and \<open>Errorf\<close>, exactly one call on each of its sinks that is not nil; a view
  built with level error makes no call in \<open>Debugf\<close> and \<open>Infof\<close>, and \<open>Errorf\<close> still
  calls every non-nil sink. \<open>Errorf\<close> calls every non-nil sink of any \<open>Logger\<close> \<open>l\<close>,
  whatever its threshold. The file logger of a view from the factory is never nil, so
  there is always a sink to write to.
\<close>

theorem severity_gating:
  assumes "initLoggerFactory w loggerName logLevel folder bySize maxSize maxFiles hours
             console sys host port proto = Inr (w', newLogger)"
  shows "(ToLower logLevel = ''debug'' \<longrightarrow>
            map call_sink (Debugf (newLogger p) fr f v) = non_nil_sinks (newLogger p) \<and>
            map call_sink (Infof (newLogger p) fr f v) = non_nil_sinks (newLogger p) \<and>
            map call_sink (Errorf (newLogger p) fr f v) = non_nil_sinks (newLogger p)) \<and>
         (ToLower logLevel = ''error'' \<longrightarrow>
            Debugf (newLogger p) fr f v = [] \<and>
            Infof (newLogger p) fr f v = [] \<and>
            map call_sink (Errorf (newLogger p) fr f v) = non_nil_sinks (newLogger p)) \<and>
         map call_sink (Errorf l fr f v) = non_nil_sinks l \<and>
         Logger_sink \<in> set (non_nil_sinks (newLogger p))"
proof -
  have lvl: "loglevel (newLogger p) = switch_loglevel logLevel"
    by (rule initLoggerFactory_view(2) [OF assms])
  have lg: "logger (newLogger p) \<noteq> None"
    by (rule initLoggerFactory_view(3) [OF assms])
  have dbg: "ToLower logLevel = ''debug'' \<longrightarrow>
            map call_sink (Debugf (newLogger p) fr f v) = non_nil_sinks (newLogger p) \<and>
            map call_sink (Infof (newLogger p) fr f v) = non_nil_sinks (newLogger p) \<and>
            map call_sink (Errorf (newLogger p) fr f v) = non_nil_sinks (newLogger p)"
  proof
    assume "ToLower logLevel = ''debug''"
    then have "loglevel (newLogger p) = 2"
      using lvl by (simp add: switch_loglevel_debug)
    then show "map call_sink (Debugf (newLogger p) fr f v) = non_nil_sinks (newLogger p) \<and>
            map call_sink (Infof (newLogger p) fr f v) = non_nil_sinks (newLogger p) \<and>
            map call_sink (Errorf (newLogger p) fr f v) = non_nil_sinks (newLogger p)"
      by (simp add: Debugf_sinks Infof_sinks Errorf_sinks LogLevelDebug_def LogLevelInfo_def)
  qed
  have err: "ToLower logLevel = ''error'' \<longrightarrow>
            Debugf (newLogger p) fr f v = [] \<and>
            Infof (newLogger p) fr f v = [] \<and>
            map call_sink (Errorf (newLogger p) fr f v) = non_nil_sinks (newLogger p)"
  proof
    assume "ToLower logLevel = ''error''"
    then have "loglevel (newLogger p) = 0"
      using lvl by (simp add: switch_loglevel_error)
    then show "Debugf (newLogger p) fr f v = [] \<and>
            Infof (newLogger p) fr f v = [] \<and>
            map call_sink (Errorf (newLogger p) fr f v) = non_nil_sinks (newLogger p)"
      by (simp add: Debugf_suppressed Infof_suppressed Errorf_sinks LogLevelDebug_def
            LogLevelInfo_def)
  qed
  have applog: "Logger_sink \<in> set (non_nil_sinks (newLogger p))"
    using lg by (auto simp: non_nil_sinks_def split: option.splits)
  show ?thesis
    using dbg err applog Errorf_sinks [of l fr f v] by blast
qed

lemma ToLower_debug: "ToLower ''debug'' = ''debug''"
  by code_simp

lemma ToLower_error: "ToLower ''error'' = ''error''"
  by code_simp

text \<open>The factory run on an empty output folder with level debug and no syslog.\<close>

theorem severity_gating_witness:
  "\<exists>w' newLogger.
     initLoggerFactory empty_world ''svc'' ''debug'' ''logs'' True 10 3 0 False False [] 0 []
       = Inr (w', newLogger) \<and>
     ToLower ''debug'' = ''debug'' \<and>
     map call_sink (Debugf (newLogger ''db'') No_frame ''started'' []) = [Logger_sink] \<and>
     map call_sink (Infof (newLogger ''db'') No_frame ''started'' []) = [Logger_sink] \<and>
     map call_sink (Errorf (newLogger ''db'') No_frame ''started'' []) = [Logger_sink]"
proof -
  obtain w' newLogger where
    f: "initLoggerFactory empty_world ''svc'' ''debug'' ''logs'' True 10 3 0 False False [] 0 []
          = Inr (w', newLogger)"
    and s: "non_nil_sinks (newLogger ''db'') = [Logger_sink]"
    by (simp add: initLoggerFactory_def createCustomFileLogger_def OpenFile_def empty_world_def
        non_nil_sinks_def Let_def)
  from severity_gating [OF f, of "''db''" No_frame "''started''" "[]"] s f ToLower_debug
  show ?thesis by simp
qed



text \<open>
  Claim C6. Every call that \<open>Debugf\<close>, \<open>Infof\<close> or \<open>Errorf\<close> makes on a sink carries the
  caller's function name (followed by a colon and a space, between the prefix and the level
  tag) when the view's threshold is at least debug, and goes without it when the threshold
  is below debug. \<open>Debugf\<close> makes calls only at threshold debug, so its calls always have
  the name.
\<close>

theorem caller_name_gating:
  "(\<forall>c \<in> set (Debugf l fr f v).
      LogLevelDebug \<le> loglevel l \<and>
      call_format c = prefix l @ getCallerFuncName fr @ '': '' @ ''debug: '' @ f) \<and>
   (\<forall>c \<in> set (Infof l fr f v).
      (LogLevelDebug \<le> loglevel l \<longrightarrow>
         call_format c = prefix l @ getCallerFuncName fr @ '': '' @ ''info: '' @ f) \<and>
      (loglevel l < LogLevelDebug \<longrightarrow> call_format c = prefix l @ ''info: '' @ f)) \<and>
   (\<forall>c \<in> set (Errorf l fr f v).
      (LogLevelDebug \<le> loglevel l \<longrightarrow>
         call_format c = prefix l @ getCallerFuncName fr @ '': '' @ ''error: '' @ f) \<and>
      (loglevel l < LogLevelDebug \<longrightarrow> call_format c = prefix l @ ''error: '' @ f))"
proof (intro conjI ballI)
  fix c assume "c \<in> set (Debugf l fr f v)"
  then show "LogLevelDebug \<le> loglevel l"
    by (simp add: Debugf_def split: if_splits)
next
  fix c assume "c \<in> set (Debugf l fr f v)"
  then show "call_format c = prefix l @ getCallerFuncName fr @ '': '' @ ''debug: '' @ f"
    by (auto simp: Debugf_def Let_def split: if_splits option.splits)
next
  fix c assume "c \<in> set (Infof l fr f v)"
  then show "LogLevelDebug \<le> loglevel l \<longrightarrow>
         call_format c = prefix l @ getCallerFuncName fr @ '': '' @ ''info: '' @ f"
    by (auto simp: Infof_def Let_def split: if_splits option.splits)
next
  fix c assume "c \<in> set (Infof l fr f v)"
  then show "loglevel l < LogLevelDebug \<longrightarrow> call_format c = prefix l @ ''info: '' @ f"
    by (auto simp: Infof_def Let_def split: if_splits option.splits)
next
  fix c assume "c \<in> set (Errorf l fr f v)"
  then show "LogLevelDebug \<le> loglevel l \<longrightarrow>
         call_format c = prefix l @ getCallerFuncName fr @ '': '' @ ''error: '' @ f"
    by (auto simp: Errorf_def Let_def split: if_splits option.splits)
next
  fix c assume "c \<in> set (Errorf l fr f v)"
  then show "loglevel l < LogLevelDebug \<longrightarrow> call_format c = prefix l @ ''error: '' @ f"
    by (auto simp: Errorf_def Let_def split: if_splits option.splits)
qed

lemma getCallerFuncName_main_run: "getCallerFuncName (Func ''main.run'') = ''run''"
  by (simp add: getCallerFuncName_def LastIndex_def Let_def)

text \<open>An \<open>Errorf\<close> on a debug-level view called from \<open>main.run\<close>.\<close>

theorem caller_name_gating_witness:
  "Errorf (file_only_view 2) (Func ''main.run'') ''lost %s'' [''x''] =
     [Logger_printf \<lparr>lg_prefix = ''svc: '', lg_flags = 3, lg_console = False\<rparr>
        ''db: run: error: lost %s'' [''x'']] \<and>
   LogLevelDebug \<le> loglevel (file_only_view 2) \<and>
   call_format (Logger_printf \<lparr>lg_prefix = ''svc: '', lg_flags = 3, lg_console = False\<rparr>
        ''db: run: error: lost %s'' [''x'']) =
     prefix (file_only_view 2) @ getCallerFuncName (Func ''main.run'') @ '': '' @
       ''error: '' @ ''lost %s''"
proof -
  have e: "Errorf (file_only_view 2) (Func ''main.run'') ''lost %s'' [''x''] =
     [Logger_printf \<lparr>lg_prefix = ''svc: '', lg_flags = 3, lg_console = False\<rparr>
        ''db: run: error: lost %s'' [''x'']]"
    by (simp add: Errorf_def file_only_view_def LogLevelDebug_def getCallerFuncName_main_run)
  have d: "LogLevelDebug \<le> loglevel (file_only_view 2)"
    by (simp add: file_only_view_def LogLevelDebug_def)
  from caller_name_gating [of "file_only_view 2" "Func ''main.run''" "''lost %s''" "[''x'']"]
  have "\<forall>c \<in> set (Errorf (file_only_view 2) (Func ''main.run'') ''lost %s'' [''x'']).
      (LogLevelDebug \<le> loglevel (file_only_view 2) \<longrightarrow>
         call_format c = prefix (file_only_view 2) @ getCallerFuncName (Func ''main.run'') @
           '': '' @ ''error: '' @ ''lost %s'')"
    by blast
  with e d show ?thesis by simp
qed


text \<open>
  The constructor of \<open>initLoggerFactory\<close>: the empty prefix gives a view without prefix
  text, a prefix \<open>p\<close> gives messages that begin with \<open>p\<close>, a colon and a space.
\<close>

lemma initLoggerFactory_prefix:
  assumes "initLoggerFactory w loggerName logLevel folder bySize maxSize maxFiles hours
             console sys host port proto = Inr (w', newLogger)"
  shows "prefix (newLogger []) = [] \<and>
         (\<forall>c \<in> set (Errorf (newLogger []) fr f v).
            call_format c =
              (if LogLevelDebug \<le> loglevel (newLogger []) then getCallerFuncName fr @ '': ''
               else []) @ ''error: '' @ f) \<and>
         (p \<noteq> [] \<longrightarrow>
            prefix (newLogger p) = p @ '': '' \<and>
            (\<forall>c \<in> set (Debugf (newLogger p) fr f v @ Infof (newLogger p) fr f v @
                          Errorf (newLogger p) fr f v).
               \<exists>rest. call_format c = p @ '': '' @ rest))"
proof -
  have a: "prefix (newLogger []) = []"
    using initLoggerFactory_view(1) [OF assms, of "[]"] by simp
  have b: "p \<noteq> [] \<longrightarrow> prefix (newLogger p) = p @ '': ''"
    using initLoggerFactory_view(1) [OF assms, of p] by simp
  show ?thesis
    using a b
    by (auto simp: Debugf_def Infof_def Errorf_def Let_def split: if_splits option.splits)
qed

text \<open>
  Claim C8 on the factory of \<open>logger/logger.go\<close>. Its constructor sets the prefix of the
  \<open>log.Logger\<close> to \<open>logPrefix + ": "\<close> without looking at \<open>logPrefix\<close>: called with the
  empty string it leaves the separator alone as the prefix, and every line the view
  writes starts with it.
\<close>

theorem InitLoggerFactory_empty_prefix:
  "\<exists>w' newLogger.
     InitLoggerFactory empty_world ''svc'' ''info'' ''logs'' True 10 3 0 False False [] 0 [] =
       Inr (w', newLogger) \<and>
     logger_v1 (newLogger []) =
       Some \<lparr>lg_prefix = '': '', lg_flags = 19, lg_console = False\<rparr> \<and>
     Errorf_v1 (newLogger []) ''disk full'' [] =
       [Logger_printf \<lparr>lg_prefix = '': '', lg_flags = 19, lg_console = False\<rparr>
          ''error: disk full'' []] \<and>
     Output_line \<lparr>lg_prefix = '': '', lg_flags = 19, lg_console = False\<rparr>
         ''2024/03/05 07:00:00 main.go:10: '' ''error: disk full'' =
       '': 2024/03/05 07:00:00 main.go:10: error: disk full''"
  by (simp add: InitLoggerFactory_def createCustomFileLogger_v1_def OpenFile_def
      empty_world_def switch_loglevel_def ToLower_info LogLevelInfo_def LogLevelDebug_def
      Errorf_v1_def Output_line_def LstdFlags_def Ldate_def Ltime_def Lshortfile_def
      Lmsgprefix_def)


section \<open>Retention cleanup: results\<close>



text \<open>
  The deletion loop, characterised: an entry goes exactly when its name is in the list and
  its removal succeeds; each failed removal is printed, in order.
\<close>

lemma Remove_print: "(Remove (print r w) x = None) = (Remove w x = None)"
  by (simp add: Remove_def print_def split: option.splits node.splits)

lemma Remove_Some:
  assumes "Remove w d = Some w'"
  shows "entries w' = filter (\<lambda>e. fst e \<noteq> d) (entries w)"
    and "faults w' = faults w"
    and "stdout w' = stdout w"
  using assms by (auto simp: Remove_def split: if_splits option.splits node.splits)

lemma map_of_filter_other:
  "x \<noteq> d \<Longrightarrow> map_of (filter (\<lambda>e. fst e \<noteq> d) es) x = map_of es x"
  by (induction es) auto

lemma Remove_after_Remove:
  assumes "Remove w d = Some w'" and "x \<noteq> d"
  shows "(Remove w' x = None) = (Remove w x = None)"
  using assms Remove_Some [OF assms(1)]
  by (simp add: Remove_def map_of_filter_other split: option.splits node.splits)

lemma remove_filesToDelete_entries:
  "entries (remove_filesToDelete w ds) =
     filter (\<lambda>e. fst e \<notin> set ds \<or> Remove w (fst e) = None) (entries w)"
proof (induction ds arbitrary: w)
  case Nil
  show ?case by simp
next
  case (Cons d rest)
  show ?case
  proof (cases "Remove w d")
    case None
    have "entries (remove_filesToDelete w (d # rest)) =
            filter (\<lambda>e. fst e \<notin> set rest \<or> Remove (print (Failed_to_delete d) w) (fst e) = None)
              (entries (print (Failed_to_delete d) w))"
      using None Cons.IH [of "print (Failed_to_delete d) w"] by simp
    also have "\<dots> = filter (\<lambda>e. fst e \<notin> set (d # rest) \<or> Remove w (fst e) = None) (entries w)"
    proof -
      have ent: "entries (print (Failed_to_delete d) w) = entries w"
        by (simp add: print_def)
      have eq: "\<And>e :: string \<times> node. (fst e \<notin> set rest \<or> Remove (print (Failed_to_delete d) w) (fst e) = None)
                 = (fst e \<notin> set (d # rest) \<or> Remove w (fst e) = None)"
        using None by (auto simp only: Remove_print set_simps insert_iff)
      show ?thesis by (simp only: ent eq)
    qed
    finally show ?thesis .
  next
    case (Some w')
    have "entries (remove_filesToDelete w (d # rest)) =
            filter (\<lambda>e. fst e \<notin> set rest \<or> Remove w' (fst e) = None) (entries w')"
      using Some Cons.IH [of w'] by simp
    also have "\<dots> = filter (\<lambda>e. fst e \<notin> set rest \<or> Remove w' (fst e) = None)
                       (filter (\<lambda>e. fst e \<noteq> d) (entries w))"
      by (simp add: Remove_Some(1) [OF Some])
    also have "\<dots> = filter (\<lambda>e. fst e \<notin> set (d # rest) \<or> Remove w (fst e) = None) (entries w)"
    proof -
      have eq: "\<And>e :: string \<times> node. (fst e \<noteq> d \<and> (fst e \<notin> set rest \<or> Remove w' (fst e) = None))
                 = (fst e \<notin> set (d # rest) \<or> Remove w (fst e) = None)"
      proof -
        fix e :: "string \<times> node"
        show "(fst e \<noteq> d \<and> (fst e \<notin> set rest \<or> Remove w' (fst e) = None))
                 = (fst e \<notin> set (d # rest) \<or> Remove w (fst e) = None)"
        proof (cases "fst e = d")
          case True
          then show ?thesis using Some by simp
        next
          case False
          then show ?thesis using Remove_after_Remove [OF Some False] by simp
        qed
      qed
      show ?thesis by (simp only: filter_filter eq)
    qed
    finally show ?thesis .
  qed
qed

lemma remove_filesToDelete_faults: "faults (remove_filesToDelete w ds) = faults w"
proof (induction ds arbitrary: w)
  case Nil
  show ?case by simp
next
  case (Cons d rest)
  show ?case
    by (cases "Remove w d") (simp_all add: Cons.IH print_def Remove_Some(2))
qed

lemma remove_filesToDelete_stdout:
  "distinct ds \<Longrightarrow>
   stdout (remove_filesToDelete w ds) =
     stdout w @ map Failed_to_delete (filter (\<lambda>d. Remove w d = None) ds)"
proof (induction ds arbitrary: w)
  case Nil
  show ?case by simp
next
  case (Cons d rest)
  then have dr: "d \<notin> set rest" and dist: "distinct rest" by simp_all
  show ?case
  proof (cases "Remove w d")
    case None
    then show ?thesis
      using Cons.IH [OF dist, of "print (Failed_to_delete d) w"]
      by (simp add: Remove_print) (simp add: print_def)
  next
    case (Some w')
    have "filter (\<lambda>x. Remove w' x = None) rest = filter (\<lambda>x. Remove w x = None) rest"
    proof (rule filter_cong [OF refl])
      fix x assume "x \<in> set rest"
      then have "x \<noteq> d" using dr by auto
      then show "(Remove w' x = None) = (Remove w x = None)"
        by (rule Remove_after_Remove [OF Some])
    qed
    then show ?thesis
      using Some Cons.IH [OF dist, of w'] by (simp add: Remove_Some(3) [OF Some])
  qed
qed


lemma cleanupLogFiles_unreadable:
  "Fail_readdir \<in> faults w \<Longrightarrow> cleanupLogFiles w k = Inr (print Failed_to_read_folder w)"
  by (simp add: cleanupLogFiles_def ReadDir_def)

lemma cleanupLogFiles_listed:
  assumes "Fail_readdir \<notin> faults w" and "0 \<le> k"
  shows "cleanupLogFiles w k =
           Inr (remove_filesToDelete w (filesToDelete (sort_key fst (entries w)) k))"
  using assms
  by (simp add: cleanupLogFiles_def ReadDir_def filesToDelete_def Let_def)

lemma filesToDelete_subset:
  "set (filesToDelete files k) \<subseteq> set (collect_logFiles files)"
  using set_take_subset [of "length (sort (collect_logFiles files)) - nat k"
      "sort (collect_logFiles files)"]
  by (simp add: filesToDelete_def Let_def)

lemma collect_logFiles_listed:
  assumes "file \<in> set (collect_logFiles (sort_key fst es))" and "distinct (map fst es)"
  shows "\<exists>n. map_of es file = Some (Regular n)"
proof -
  from assms(1) obtain x where x: "(file, x) \<in> set es" and "\<not> IsDir x"
    by (auto simp: collect_logFiles_def)
  then obtain n where "x = Regular n" by (cases x) auto
  with x assms(2) show ?thesis by (auto intro: map_of_is_SomeI)
qed

lemma Remove_listed_file:
  assumes "file \<in> set (collect_logFiles (sort_key fst (entries w)))"
    and "distinct (map fst (entries w))"
  shows "(Remove w file = None) = (Fail_remove file \<in> faults w)"
  using collect_logFiles_listed [OF assms] by (auto simp: Remove_def)

lemma distinct_collect_logFiles:
  assumes "distinct (map fst es)"
  shows "distinct (sort (collect_logFiles (sort_key fst es)))"
proof -
  have "distinct (sort_key fst es)"
    using assms by (simp add: distinct_map)
  moreover have "inj_on fst (set (sort_key fst es))"
    using assms by (simp add: distinct_map)
  ultimately have "distinct (map fst (sort_key fst es))"
    by (simp add: distinct_map)
  then show ?thesis
    by (simp add: collect_logFiles_def distinct_map_filter)
qed

lemma distinct_filesToDelete:
  "distinct (map fst es) \<Longrightarrow> distinct (filesToDelete (sort_key fst es) k)"
  using distinct_collect_logFiles [of es]
  by (simp add: filesToDelete_def Let_def del: distinct_sort)

text \<open>
  Claim C9. When listing the output directory fails, \<open>cleanupLogFiles\<close> prints the failure
  and returns normally with every entry untouched, whatever the retention count. When the
  listing succeeds (names in a directory are distinct, the retention count is not
  negative), the pass returns normally too, and for every file it set out to delete: if
  the system refuses the removal, the failure is printed and the file stays; if not, the
  file is gone, whichever other removals failed. Entries it did not set out to delete
  stay. In neither case is the result an abort.
\<close>

theorem cleanup_failures_not_fatal:
  "(Fail_readdir \<in> faults w \<longrightarrow>
      cleanupLogFiles w k = Inr (print Failed_to_read_folder w) \<and>
      entries (print Failed_to_read_folder w) = entries w \<and>
      Failed_to_read_folder \<in> set (stdout (print Failed_to_read_folder w))) \<and>
   (Fail_readdir \<notin> faults w \<and> 0 \<le> k \<and> distinct (map fst (entries w)) \<longrightarrow>
      (\<exists>w'. cleanupLogFiles w k = Inr w' \<and>
         (\<forall>file \<in> set (filesToDelete (sort_key fst (entries w)) k).
            (Fail_remove file \<in> faults w \<longrightarrow>
               Failed_to_delete file \<in> set (stdout w') \<and> file \<in> fst ` set (entries w')) \<and>
            (Fail_remove file \<notin> faults w \<longrightarrow> file \<notin> fst ` set (entries w'))) \<and>
         (\<forall>e \<in> set (entries w).
            fst e \<notin> set (filesToDelete (sort_key fst (entries w)) k) \<longrightarrow>
            e \<in> set (entries w'))))"
proof (intro conjI impI)
  assume "Fail_readdir \<in> faults w"
  then show "cleanupLogFiles w k = Inr (print Failed_to_read_folder w)"
    by (rule cleanupLogFiles_unreadable)
next
  show "entries (print Failed_to_read_folder w) = entries w"
    by (simp add: print_def)
next
  show "Failed_to_read_folder \<in> set (stdout (print Failed_to_read_folder w))"
    by (simp add: print_def)
next
  assume a: "Fail_readdir \<notin> faults w \<and> 0 \<le> k \<and> distinct (map fst (entries w))"
  define ds where "ds = filesToDelete (sort_key fst (entries w)) k"
  define w' where "w' = remove_filesToDelete w ds"
  have run: "cleanupLogFiles w k = Inr w'"
    using a by (simp add: cleanupLogFiles_listed w'_def ds_def)
  have ent: "entries w' = filter (\<lambda>e. fst e \<notin> set ds \<or> Remove w (fst e) = None) (entries w)"
    by (simp add: w'_def remove_filesToDelete_entries)
  have out: "stdout w' = stdout w @ map Failed_to_delete (filter (\<lambda>d. Remove w d = None) ds)"
    using a by (simp add: w'_def ds_def remove_filesToDelete_stdout distinct_filesToDelete)
  have fails: "(Remove w x = None) = (Fail_remove x \<in> faults w)" if "x \<in> set ds" for x
  proof -
    from that have "x \<in> set (collect_logFiles (sort_key fst (entries w)))"
      using filesToDelete_subset ds_def by blast
    then show ?thesis using a by (simp add: Remove_listed_file)
  qed
  have present: "x \<in> fst ` set (entries w)" if "x \<in> set ds" for x
  proof -
    from that have "x \<in> set (collect_logFiles (sort_key fst (entries w)))"
      using filesToDelete_subset ds_def by blast
    then show ?thesis by (auto simp: collect_logFiles_def)
  qed
  have each: "\<forall>file \<in> set ds.
            (Fail_remove file \<in> faults w \<longrightarrow>
               Failed_to_delete file \<in> set (stdout w') \<and> file \<in> fst ` set (entries w')) \<and>
            (Fail_remove file \<notin> faults w \<longrightarrow> file \<notin> fst ` set (entries w'))"
  proof (intro ballI conjI impI)
    fix x assume f: "x \<in> set ds" and "Fail_remove x \<in> faults w"
    then have "Remove w x = None" by (simp add: fails)
    with f show "Failed_to_delete x \<in> set (stdout w')" by (simp add: out)
    from present [OF f] obtain e where "e \<in> set (entries w)" and "fst e = x" by auto
    with \<open>Remove w x = None\<close> have "e \<in> set (entries w')" by (simp add: ent)
    with \<open>fst e = x\<close> show "x \<in> fst ` set (entries w')" by force
  next
    fix x assume f: "x \<in> set ds" and "Fail_remove x \<notin> faults w"
    then have "Remove w x \<noteq> None" by (simp add: fails)
    with f show "x \<notin> fst ` set (entries w')" by (auto simp: ent)
  qed
  have others: "\<forall>e \<in> set (entries w). fst e \<notin> set ds \<longrightarrow> e \<in> set (entries w')"
    by (simp add: ent)
  show "\<exists>w'. cleanupLogFiles w k = Inr w' \<and>
         (\<forall>file \<in> set (filesToDelete (sort_key fst (entries w)) k).
            (Fail_remove file \<in> faults w \<longrightarrow>
               Failed_to_delete file \<in> set (stdout w') \<and> file \<in> fst ` set (entries w')) \<and>
            (Fail_remove file \<notin> faults w \<longrightarrow> file \<notin> fst ` set (entries w'))) \<and>
         (\<forall>e \<in> set (entries w).
            fst e \<notin> set (filesToDelete (sort_key fst (entries w)) k) \<longrightarrow>
            e \<in> set (entries w'))"
    using run each others unfolding ds_def by blast
qed

text \<open>
  The folder of logger \<open>kodo\<close> with retention count 2: the first of the three removals is
  refused, the other two are carried out; and the same folder when it cannot be listed.
\<close>

lemma kodo_folder_filesToDelete:
  "filesToDelete (sort_key fst (entries kodo_folder)) 2 =
     [''kodo.log.20240305-03'', ''kodo.log.20240305-04'', ''kodo.log.20240305-05'']"
  by (simp add: filesToDelete_def collect_logFiles_def kodo_folder_def)



theorem cleanup_failures_not_fatal_witness:
  "(\<exists>w'. cleanupLogFiles kodo_folder 2 = Inr w' \<and>
      Failed_to_delete ''kodo.log.20240305-03'' \<in> set (stdout w') \<and>
      ''kodo.log.20240305-03'' \<in> fst ` set (entries w') \<and>
      ''kodo.log.20240305-04'' \<notin> fst ` set (entries w') \<and>
      ''kodo.log.20240305-05'' \<notin> fst ` set (entries w') \<and>
      (''kodo.log.20240305-06'', Regular 4096) \<in> set (entries w')) \<and>
   cleanupLogFiles (kodo_folder\<lparr>faults := {Fail_readdir}\<rparr>) 2 =
     Inr (kodo_folder\<lparr>faults := {Fail_readdir}, stdout := [Failed_to_read_folder]\<rparr>)"
proof -
  have h: "Fail_readdir \<notin> faults kodo_folder \<and> (0::int) \<le> 2 \<and>
           distinct (map fst (entries kodo_folder))"
    by (simp add: kodo_folder_def)
  have f3: "Fail_remove ''kodo.log.20240305-03'' \<in> faults kodo_folder"
    and f4: "Fail_remove ''kodo.log.20240305-04'' \<notin> faults kodo_folder"
    and f5: "Fail_remove ''kodo.log.20240305-05'' \<notin> faults kodo_folder"
    and e6: "(''kodo.log.20240305-06'', Regular 4096) \<in> set (entries kodo_folder)"
    by (simp_all add: kodo_folder_def)
  from cleanup_failures_not_fatal [of kodo_folder 2] h
  obtain w' where run: "cleanupLogFiles kodo_folder 2 = Inr w'"
    and each: "\<forall>file \<in> set (filesToDelete (sort_key fst (entries kodo_folder)) 2).
            (Fail_remove file \<in> faults kodo_folder \<longrightarrow>
               Failed_to_delete file \<in> set (stdout w') \<and> file \<in> fst ` set (entries w')) \<and>
            (Fail_remove file \<notin> faults kodo_folder \<longrightarrow> file \<notin> fst ` set (entries w'))"
    and others: "\<forall>e \<in> set (entries kodo_folder).
            fst e \<notin> set (filesToDelete (sort_key fst (entries kodo_folder)) 2) \<longrightarrow>
            e \<in> set (entries w')"
    by blast
  have first: "\<exists>w'. cleanupLogFiles kodo_folder 2 = Inr w' \<and>
      Failed_to_delete ''kodo.log.20240305-03'' \<in> set (stdout w') \<and>
      ''kodo.log.20240305-03'' \<in> fst ` set (entries w') \<and>
      ''kodo.log.20240305-04'' \<notin> fst ` set (entries w') \<and>
      ''kodo.log.20240305-05'' \<notin> fst ` set (entries w') \<and>
      (''kodo.log.20240305-06'', Regular 4096) \<in> set (entries w')"
    using run each others f3 f4 f5 e6 unfolding kodo_folder_filesToDelete
    by (intro exI [of _ w']) simp
  have r: "Fail_readdir \<in> faults (kodo_folder\<lparr>faults := {Fail_readdir}\<rparr>)"
    by simp
  from cleanup_failures_not_fatal [of "kodo_folder\<lparr>faults := {Fail_readdir}\<rparr>" 2] r
  have "cleanupLogFiles (kodo_folder\<lparr>faults := {Fail_readdir}\<rparr>) 2 =
          Inr (print Failed_to_read_folder (kodo_folder\<lparr>faults := {Fail_readdir}\<rparr>))"
    by blast
  then have second: "cleanupLogFiles (kodo_folder\<lparr>faults := {Fail_readdir}\<rparr>) 2 =
     Inr (kodo_folder\<lparr>faults := {Fail_readdir}, stdout := [Failed_to_read_folder]\<rparr>)"
    by (simp add: print_def kodo_folder_def)
  from first second show ?thesis by blast
qed

text \<open>
  Claim C1 fails on the code. For a logger named \<open>app\<close> the live main log file is
  \<open>app.log\<close>, but \<open>cleanupLogFiles\<close> excludes only the fixed name \<open>kodo.log\<close>: \<open>app.log\<close> is
  a candidate, sorts before its own rotated files, and is the first to be deleted. Here,
  with two rotated files and a retention count of 2, the pass deletes the live file.
\<close>

theorem cleanup_deletes_live_log_file:
  "main_fileName ''app'' = ''app.log'' \<and>
   ''app.log'' \<in> set (collect_logFiles (entries app_folder)) \<and>
   cleanupLogFiles app_folder 2 =
     Inr (app_folder\<lparr>entries := [(''app.log.20240305-07'', Regular 4096),
                                  (''app.log.20240305-08'', Regular 4096)]\<rparr>)"
  by (simp add: main_fileName_def cleanupLogFiles_def ReadDir_def collect_logFiles_def
      filesToDelete_def Remove_def app_folder_def)

text \<open>
  Claim C3, as stated, speaks of every directory state. A removal that the system refuses
  is printed and otherwise ignored, so more than \<open>MaxLogFiles\<close> rotated files can remain:
  in the folder of logger \<open>kodo\<close> with five rotated files and a retention count of 2,
  three remain.
\<close>

theorem cleanup_leaves_more_than_max:
  "cleanupLogFiles kodo_folder 2 =
     Inr (kodo_folder\<lparr>entries := [(''kodo.log'', Regular 120),
                                   (''kodo.log.20240305-03'', Regular 4096),
                                   (''kodo.log.20240305-06'', Regular 4096),
                                   (''kodo.log.20240305-07'', Regular 4096)],
                       stdout := [Failed_to_delete ''kodo.log.20240305-03'']\<rparr>) \<and>
   retention_set ''kodo''
     (kodo_folder\<lparr>entries := [(''kodo.log'', Regular 120),
                                (''kodo.log.20240305-03'', Regular 4096),
                                (''kodo.log.20240305-06'', Regular 4096),
                                (''kodo.log.20240305-07'', Regular 4096)],
                    stdout := [Failed_to_delete ''kodo.log.20240305-03'']\<rparr>) =
     [''kodo.log.20240305-03'', ''kodo.log.20240305-06'', ''kodo.log.20240305-07''] \<and>
   \<not> length [''kodo.log.20240305-03'', ''kodo.log.20240305-06'', ''kodo.log.20240305-07'']
       \<le> (2::nat)"
  by (simp add: cleanupLogFiles_def ReadDir_def collect_logFiles_def filesToDelete_def
      Remove_def print_def kodo_folder_def retention_set_def main_fileName_def)


text \<open>Facts about sorted lists of distinct names for the amended claim.\<close>

lemma filter_not_in_take:
  assumes "distinct xs"
  shows "filter (\<lambda>x. x \<notin> set (take m xs)) xs = drop m xs"
proof -
  have d: "distinct (take m xs @ drop m xs)" using assms by simp
  then have disj: "set (take m xs) \<inter> set (drop m xs) = {}"
    by (simp only: distinct_append)
  have a: "filter (\<lambda>x. x \<notin> set (take m xs)) (take m xs) = []"
    by (simp add: filter_empty_conv)
  have b: "filter (\<lambda>x. x \<notin> set (take m xs)) (drop m xs) = drop m xs"
    using disj by (auto simp: filter_id_conv)
  have "filter (\<lambda>x. x \<notin> set (take m xs)) xs =
          filter (\<lambda>x. x \<notin> set (take m xs)) (take m xs) @
          filter (\<lambda>x. x \<notin> set (take m xs)) (drop m xs)"
    by (metis append_take_drop_id filter_append)
  then show ?thesis by (simp only: a b append_Nil)
qed

lemma sort_collect_logFiles_listing:
  assumes "distinct (map fst es)"
  shows "sort (collect_logFiles (sort_key fst es)) = sort (collect_logFiles es)"
proof (rule sorted_distinct_set_unique)
  show "distinct (sort (collect_logFiles (sort_key fst es)))"
    by (rule distinct_collect_logFiles [OF assms])
  show "distinct (sort (collect_logFiles es))"
    using assms by (simp add: collect_logFiles_def distinct_map_filter)
  show "set (sort (collect_logFiles (sort_key fst es))) = set (sort (collect_logFiles es))"
    by (simp add: collect_logFiles_def)
qed simp_all

lemma retention_set_kodo: "retention_set ''kodo'' w = sort (collect_logFiles (entries w))"
  by (simp add: retention_set_def collect_logFiles_def main_fileName_def)

text \<open>
  Claim C3, amended: for every retention count \<open>k > 0\<close> and every directory (with distinct
  names) that can be listed and in which no removal of a rotated file is refused, after
  one cleanup pass the rotated files that remain are the last \<open>k\<close> of the sorted retention
  set (all of it when it has at most \<open>k\<close> names), so at most \<open>k\<close> remain; the entries
  deleted are exactly the leading names of the sorted retention set, each of them smaller
  than every name that remains; and when at most \<open>k\<close> rotated files are present the
  directory is left as it was. This is stated for the logger whose main file is the one
  \<open>cleanupLogFiles\<close> excludes, \<open>kodo.log\<close>.
\<close>

theorem cleanup_keeps_newest:
  assumes wf: "distinct (map fst (entries w))"
    and listing: "Fail_readdir \<notin> faults w"
    and removable: "\<forall>file \<in> set (retention_set loggerName w). Fail_remove file \<notin> faults w"
    and k: "0 < k"
    and name: "loggerName = ''kodo''"
  shows "\<exists>w'. cleanupLogFiles w k = Inr w' \<and>
           retention_set loggerName w' =
             drop (length (retention_set loggerName w) - nat k) (retention_set loggerName w) \<and>
           length (retention_set loggerName w') \<le> nat k \<and>
           entries w' =
             filter (\<lambda>e. fst e \<notin> set (take (length (retention_set loggerName w) - nat k)
                                          (retention_set loggerName w)))
               (entries w) \<and>
           (\<forall>a \<in> set (take (length (retention_set loggerName w) - nat k)
                         (retention_set loggerName w)).
              \<forall>b \<in> set (retention_set loggerName w'). a < b) \<and>
           (length (retention_set loggerName w) \<le> nat k \<longrightarrow> w' = w)"
proof -
  define R where "R = retention_set loggerName w"
  define m where "m = length R - nat k"
  define w' where "w' = remove_filesToDelete w (take m R)"
  have R_code: "R = sort (collect_logFiles (sort_key fst (entries w)))"
    using wf by (simp add: R_def name retention_set_kodo sort_collect_logFiles_listing)
  have R_sorted: "sorted R" and R_distinct: "distinct R"
    using wf by (simp_all add: R_code distinct_collect_logFiles del: distinct_sort)
  have ds: "filesToDelete (sort_key fst (entries w)) k = take m R"
    by (simp add: filesToDelete_def Let_def R_code m_def)
  have run: "cleanupLogFiles w k = Inr w'"
    using listing k by (simp add: cleanupLogFiles_listed ds w'_def)
  have ok: "Remove w x \<noteq> None" if "x \<in> set (take m R)" for x
  proof -
    from that have xR: "x \<in> set R" by (rule in_set_takeD)
    then have "x \<in> set (collect_logFiles (sort_key fst (entries w)))"
      by (simp add: R_code)
    then have "(Remove w x = None) = (Fail_remove x \<in> faults w)"
      using wf by (rule Remove_listed_file)
    with xR removable show ?thesis by (simp add: R_def)
  qed
  have ent: "entries w' = filter (\<lambda>e. fst e \<notin> set (take m R)) (entries w)"
  proof -
    have "entries w' =
            filter (\<lambda>e. fst e \<notin> set (take m R) \<or> Remove w (fst e) = None) (entries w)"
      by (simp add: w'_def remove_filesToDelete_entries)
    also have "\<dots> = filter (\<lambda>e. fst e \<notin> set (take m R)) (entries w)"
    proof (rule filter_cong [OF refl])
      fix e assume "e \<in> set (entries w)"
      show "(fst e \<notin> set (take m R) \<or> Remove w (fst e) = None) = (fst e \<notin> set (take m R))"
        using ok [of "fst e"] by blast
    qed
    finally show ?thesis .
  qed
  have out: "stdout w' = stdout w"
  proof -
    have "filter (\<lambda>d. Remove w d = None) (take m R) = []"
      using ok by (simp add: filter_empty_conv)
    moreover have "distinct (take m R)" using R_distinct by simp
    ultimately show ?thesis by (simp add: w'_def remove_filesToDelete_stdout)
  qed
  have R': "retention_set loggerName w' = drop m R"
  proof -
    have "retention_set loggerName w' =
            sort (map fst (filter (\<lambda>e. fst e \<noteq> ''kodo.log'' \<and> \<not> IsDir (snd e))
                             (filter (\<lambda>e. fst e \<notin> set (take m R)) (entries w))))"
      by (simp add: retention_set_def name main_fileName_def ent)
    also have "\<dots> = sort (filter (\<lambda>x. x \<notin> set (take m R))
                            (map fst (filter (\<lambda>e. fst e \<noteq> ''kodo.log'' \<and> \<not> IsDir (snd e))
                                        (entries w))))"
      by (simp add: filter_map comp_def conj_commute)
    also have "\<dots> = filter (\<lambda>x. x \<notin> set (take m R)) R"
      by (simp add: R_def name retention_set_def main_fileName_def filter_sort)
    also have "\<dots> = drop m R"
      by (rule filter_not_in_take [OF R_distinct])
    finally show ?thesis .
  qed
  have len: "length (retention_set loggerName w') \<le> nat k"
    by (simp add: R' m_def)
  have older: "\<forall>a \<in> set (take m R). \<forall>b \<in> set (retention_set loggerName w'). a < b"
  proof (intro ballI)
    fix a b assume a: "a \<in> set (take m R)" and b: "b \<in> set (retention_set loggerName w')"
    then have b': "b \<in> set (drop m R)" by (simp add: R')
    have "sorted (take m R @ drop m R)" using R_sorted by simp
    then have "\<forall>x\<in>set (take m R). \<forall>y\<in>set (drop m R). x \<le> y"
      unfolding sorted_append by blast
    then have "a \<le> b" using a b' by blast
    moreover have "distinct (take m R @ drop m R)" using R_distinct by simp
    then have "set (take m R) \<inter> set (drop m R) = {}"
      unfolding distinct_append by blast
    then have "a \<noteq> b" using a b' by blast
    ultimately show "a < b" by simp
  qed
  have same: "length R \<le> nat k \<longrightarrow> w' = w"
    by (simp add: w'_def m_def)
  show ?thesis
    using run R' len ent older same unfolding R_def [symmetric] m_def [symmetric]
    by (intro exI [of _ w']) (simp add: m_def)
qed


text \<open>Five rotated files, none refused, retention count 2: the two newest remain.\<close>

theorem cleanup_keeps_newest_witness:
  "\<exists>w'. cleanupLogFiles (kodo_folder\<lparr>faults := {}\<rparr>) 2 = Inr w' \<and>
      retention_set ''kodo'' w' = [''kodo.log.20240305-06'', ''kodo.log.20240305-07''] \<and>
      entries w' = [(''kodo.log'', Regular 120), (''kodo.log.20240305-06'', Regular 4096),
                    (''kodo.log.20240305-07'', Regular 4096)]"
proof -
  have R: "retention_set ''kodo'' (kodo_folder\<lparr>faults := {}\<rparr>) =
             [''kodo.log.20240305-03'', ''kodo.log.20240305-04'', ''kodo.log.20240305-05'',
              ''kodo.log.20240305-06'', ''kodo.log.20240305-07'']"
    by (simp add: retention_set_def main_fileName_def kodo_folder_def)
  have h1: "distinct (map fst (entries (kodo_folder\<lparr>faults := {}\<rparr>)))"
    by (simp add: kodo_folder_def)
  have h2: "Fail_readdir \<notin> faults (kodo_folder\<lparr>faults := {}\<rparr>)"
    by simp
  have h3: "\<forall>file \<in> set (retention_set ''kodo'' (kodo_folder\<lparr>faults := {}\<rparr>)).
              Fail_remove file \<notin> faults (kodo_folder\<lparr>faults := {}\<rparr>)"
    by simp
  have h4: "(0::int) < 2" by simp
  from cleanup_keeps_newest [OF h1 h2 h3 h4 refl]
  obtain w' where run: "cleanupLogFiles (kodo_folder\<lparr>faults := {}\<rparr>) 2 = Inr w'"
    and rest: "retention_set ''kodo'' w' =
             drop (length (retention_set ''kodo'' (kodo_folder\<lparr>faults := {}\<rparr>)) - nat 2)
               (retention_set ''kodo'' (kodo_folder\<lparr>faults := {}\<rparr>))"
    and ent: "entries w' =
             filter (\<lambda>e. fst e \<notin> set (take (length (retention_set ''kodo''
                               (kodo_folder\<lparr>faults := {}\<rparr>)) - nat 2)
                          (retention_set ''kodo'' (kodo_folder\<lparr>faults := {}\<rparr>))))
               (entries (kodo_folder\<lparr>faults := {}\<rparr>))"
    by blast
  have "retention_set ''kodo'' w' = [''kodo.log.20240305-06'', ''kodo.log.20240305-07'']"
    using rest unfolding R by simp
  moreover have "entries w' =
      [(''kodo.log'', Regular 120), (''kodo.log.20240305-06'', Regular 4096),
       (''kodo.log.20240305-07'', Regular 4096)]"
    using ent unfolding R by (simp add: kodo_folder_def)
  ultimately show ?thesis using run by blast
qed

section \<open>Rotation: results\<close>


text \<open>The decimal fields of the timestamp, digit by digit.\<close>

lemma digit_char_0: "digit_char 0 = CHR ''0''"
  by code_simp

lemma replicate_2: "replicate 2 c = [c, c]"
  by (simp add: numeral_2_eq_2)

lemma replicate_3: "replicate 3 c = [c, c, c]"
  by (simp add: numeral_3_eq_3)

lemma decimal_1: "n < 10 \<Longrightarrow> decimal n = [digit_char n]"
  by (simp add: decimal.simps [of n])

lemma decimal_step: "10 \<le> n \<Longrightarrow> decimal n = decimal (n div 10) @ [digit_char (n mod 10)]"
  by (simp add: decimal.simps [of n])

lemma decimal_2:
  assumes "10 \<le> n" and "n < 100"
  shows "decimal n = [digit_char (n div 10), digit_char (n mod 10)]"
proof -
  have "n div 10 < 10" using assms by auto
  then show ?thesis using assms by (simp add: decimal_step decimal_1)
qed

lemma decimal_3:
  assumes "100 \<le> n" and "n < 1000"
  shows "decimal n =
           [digit_char (n div 100), digit_char (n div 10 mod 10), digit_char (n mod 10)]"
proof -
  have "10 \<le> n div 10" and "n div 10 < 100" using assms by auto
  then have "decimal (n div 10) = [digit_char (n div 10 div 10), digit_char (n div 10 mod 10)]"
    by (rule decimal_2)
  moreover have "n div 10 div 10 = n div 100" by (simp add: div_mult2_eq [symmetric])
  moreover have "10 \<le> n" using assms by simp
  ultimately show ?thesis by (simp add: decimal_step)
qed

lemma decimal_4:
  assumes "1000 \<le> n" and "n < 10000"
  shows "decimal n =
           [digit_char (n div 1000), digit_char (n div 100 mod 10),
            digit_char (n div 10 mod 10), digit_char (n mod 10)]"
proof -
  have "100 \<le> n div 10" and "n div 10 < 1000" using assms by auto
  then have "decimal (n div 10) =
      [digit_char (n div 10 div 100), digit_char (n div 10 div 10 mod 10),
       digit_char (n div 10 mod 10)]"
    by (rule decimal_3)
  moreover have "n div 10 div 100 = n div 1000" "n div 10 div 10 = n div 100"
    by (simp_all add: div_mult2_eq [symmetric])
  moreover have "10 \<le> n" using assms by simp
  ultimately show ?thesis by (simp add: decimal_step)
qed

lemma appendInt_2:
  assumes "x < 100"
  shows "appendInt x 2 = [digit_char (x div 10), digit_char (x mod 10)]"
proof (cases "x < 10")
  case True
  then show ?thesis by (simp add: appendInt_def decimal_1 digit_char_0)
next
  case False
  then show ?thesis using assms by (simp add: appendInt_def decimal_2)
qed

lemma appendInt_4:
  assumes "x < 10000"
  shows "appendInt x 4 =
         [digit_char (x div 1000), digit_char (x div 100 mod 10),
          digit_char (x div 10 mod 10), digit_char (x mod 10)]"
proof -
  consider "x < 10" | "10 \<le> x \<and> x < 100" | "100 \<le> x \<and> x < 1000" | "1000 \<le> x"
    by linarith
  then show ?thesis
  proof cases
    case 1
    then show ?thesis by (simp add: appendInt_def decimal_1 digit_char_0 replicate_3)
  next
    case 2
    then have "x div 10 < 10" by auto
    with 2 show ?thesis by (simp add: appendInt_def decimal_2 digit_char_0 replicate_2)
  next
    case 3
    then have "x div 100 < 10" by auto
    with 3 show ?thesis by (simp add: appendInt_def decimal_3 digit_char_0)
  next
    case 4
    then show ?thesis using assms by (simp add: appendInt_def decimal_4)
  qed
qed

lemma Format_layout:
  assumes "Year t < 10000" "Month t \<le> 12" "Day t \<le> 31" "Hour t \<le> 23"
  shows "Format_20060102_15 t =
           [digit_char (Year t div 1000), digit_char (Year t div 100 mod 10),
            digit_char (Year t div 10 mod 10), digit_char (Year t mod 10),
            digit_char (Month t div 10), digit_char (Month t mod 10),
            digit_char (Day t div 10), digit_char (Day t mod 10),
            CHR ''-'',
            digit_char (Hour t div 10), digit_char (Hour t mod 10)]"
  using assms
  by (simp add: Format_20060102_15_def appendInt_2 appendInt_4)


text \<open>What a lookup finds after a rename inside the directory.\<close>

lemma map_of_filter_fst:
  "map_of (filter (\<lambda>e. fst e \<noteq> d) es) x = (if x = d then None else map_of es x)"
  by (induction es) auto

lemma map_of_renamed:
  assumes "map_of es new = None" and "old \<noteq> new"
  shows "map_of (map (\<lambda>e. if fst e = old then (new, snd e) else e) es) x =
           (if x = new then map_of es old else if x = old then None else map_of es x)"
  using assms by (induction es) (auto split: if_splits)

lemma rotatedFileName_differs: "rotatedFileName fileName now \<noteq> fileName"
  by (simp add: rotatedFileName_def)

lemma Rename_map_of:
  assumes "Fail_rename old \<notin> faults w"
    and "map_of (entries w) old = Some (Regular n)"
    and "map_of (entries w) new \<noteq> Some Directory"
    and "old \<noteq> new"
  shows "\<exists>w1. Rename w old new = Some w1 \<and> faults w1 = faults w \<and> stdout w1 = stdout w \<and>
           (\<forall>x. map_of (entries w1) x =
                  (if x = new then Some (Regular n) else if x = old then None
                   else map_of (entries w) x))"
proof -
  define es' where "es' = filter (\<lambda>e. fst e \<noteq> new) (entries w)"
  have none: "map_of es' new = None" by (simp add: es'_def map_of_filter_fst)
  have old: "map_of es' old = Some (Regular n)"
    using assms by (simp add: es'_def map_of_filter_fst)
  have "Rename w old new =
          Some (w\<lparr>entries := map (\<lambda>e. if fst e = old then (new, snd e) else e) es'\<rparr>)"
    using assms by (simp add: Rename_def es'_def)
  moreover have "\<forall>x. map_of (map (\<lambda>e. if fst e = old then (new, snd e) else e) es') x =
                  (if x = new then Some (Regular n) else if x = old then None
                   else map_of (entries w) x)"
    using map_of_renamed [OF none assms(4)] old by (simp add: es'_def map_of_filter_fst)
  ultimately show ?thesis by simp
qed

text \<open>
  Claim C2, amended: for a rotation at wall-clock time \<open>t\<close> (a reading with a year below
  10000) in which closing the handle, renaming and reopening all succeed,
  \<open>rotateLogFile\<close> renames the current file to exactly the main file name, a dot, and \<open>t\<close>
  formatted as 4-digit year, 2-digit month, 2-digit day, a hyphen and the 2-digit hour
  (\<open>YYYYMMDD-HH\<close>), and then opens a fresh, empty file at the original path: afterwards the
  old content is found under the rotated name, an empty file under the original name,
  every other entry is as before, the new handle is open, and nothing was printed.
\<close>

theorem rotateLogFile_renames:
  assumes "\<not> closed lf"
    and "Fail_close \<notin> faults w"
    and "Fail_rename fileName \<notin> faults w"
    and "Fail_open fileName \<notin> faults w"
    and "map_of (entries w) fileName = Some (Regular n)"
    and "map_of (entries w) (rotatedFileName fileName now) \<noteq> Some Directory"
    and "Year now < 10000" and "Month now \<le> 12" and "Day now \<le> 31" and "Hour now \<le> 23"
  shows "\<exists>w' newLogFile.
           rotateLogFile w lf fileName now = Inr (w', newLogFile) \<and>
           rotatedFileName fileName now =
             fileName @ ''.'' @
             [digit_char (Year now div 1000), digit_char (Year now div 100 mod 10),
              digit_char (Year now div 10 mod 10), digit_char (Year now mod 10),
              digit_char (Month now div 10), digit_char (Month now mod 10),
              digit_char (Day now div 10), digit_char (Day now mod 10),
              CHR ''-'',
              digit_char (Hour now div 10), digit_char (Hour now mod 10)] \<and>
           map_of (entries w') (rotatedFileName fileName now) = Some (Regular n) \<and>
           map_of (entries w') fileName = Some (Regular 0) \<and>
           (\<forall>x. x \<noteq> fileName \<and> x \<noteq> rotatedFileName fileName now \<longrightarrow>
                map_of (entries w') x = map_of (entries w) x) \<and>
           \<not> closed newLogFile \<and> file_size newLogFile = 0 \<and>
           stdout w' = stdout w"
proof -
  let ?new = "rotatedFileName fileName now"
  have cl: "Close w lf = (True, lf\<lparr>closed := True\<rparr>)"
    using assms(1,2) by (simp add: Close_def)
  from Rename_map_of [OF assms(3) assms(5) assms(6) rotatedFileName_differs [symmetric]]
  obtain w1 where ren: "Rename w fileName ?new = Some w1"
    and f1: "faults w1 = faults w" and o1: "stdout w1 = stdout w"
    and m1: "\<forall>x. map_of (entries w1) x =
                  (if x = ?new then Some (Regular n) else if x = fileName then None
                   else map_of (entries w) x)"
    by blast
  have gone: "map_of (entries w1) fileName = None"
    using m1 rotatedFileName_differs [of fileName now] by simp
  define w2 where "w2 = w1\<lparr>entries := entries w1 @ [(fileName, Regular 0)]\<rparr>"
  have op: "OpenFile w1 fileName = Some (w2, \<lparr>closed = False, file_size = 0\<rparr>)"
    using assms(4) gone by (simp add: OpenFile_def f1 w2_def)
  have run: "rotateLogFile w lf fileName now = Inr (w2, \<lparr>closed = False, file_size = 0\<rparr>)"
    by (simp add: rotateLogFile_def cl ren op)
  have m2: "map_of (entries w2) x =
              (if x = ?new then Some (Regular n) else if x = fileName then Some (Regular 0)
               else map_of (entries w) x)" for x
    using m1 by (simp add: w2_def map_add_def split: option.splits)
  have name: "?new = fileName @ ''.'' @
             [digit_char (Year now div 1000), digit_char (Year now div 100 mod 10),
              digit_char (Year now div 10 mod 10), digit_char (Year now mod 10),
              digit_char (Month now div 10), digit_char (Month now mod 10),
              digit_char (Day now div 10), digit_char (Day now mod 10),
              CHR ''-'',
              digit_char (Hour now div 10), digit_char (Hour now mod 10)]"
    using assms(7-10) by (simp only: rotatedFileName_def Format_layout)
  have a: "map_of (entries w2) ?new = Some (Regular n)"
    by (simp add: m2)
  have b: "map_of (entries w2) fileName = Some (Regular 0)"
    using rotatedFileName_differs [of fileName now] by (simp add: m2)
  have c: "\<forall>x. x \<noteq> fileName \<and> x \<noteq> ?new \<longrightarrow> map_of (entries w2) x = map_of (entries w) x"
    by (simp add: m2)
  have d: "stdout w2 = stdout w"
    by (simp add: w2_def o1)
  show ?thesis
    using run name a b c d by (intro exI [of _ w2] exI [of _ "\<lparr>closed = False, file_size = 0\<rparr>"]) simp
qed

text \<open>The two renderings of 5 March 2024, 7 o'clock.\<close>

lemma Format_march_5th_7h: "Format_20060102_15 march_5th_7h = ''20240305-07''"
  by code_simp

lemma spec_march_5th_7h: "spec_YYYYMMDDHH march_5th_7h = ''2024030507''"
  by code_simp

text \<open>
  Claim C2, as stated, has the suffix \<open>YYYYMMDDHH\<close> with no other characters. The layout
  in \<open>rotateLogFile\<close> is \<open>20060102-15\<close>, with a hyphen between day and hour: a rotation of
  \<open>app.log\<close> on 5 March 2024 in the hour after 7 produces \<open>app.log.20240305-07\<close>, not
  \<open>app.log.2024030507\<close>.
\<close>

theorem rotateLogFile_suffix_has_hyphen:
  "rotateLogFile app_folder open_handle ''app.log'' march_5th_7h =
     Inr (app_folder\<lparr>entries := [(''app.log.20240305-07'', Regular 120),
                                  (''app.log.20240305-08'', Regular 4096),
                                  (''app.log'', Regular 0)]\<rparr>,
          \<lparr>closed = False, file_size = 0\<rparr>) \<and>
   ''app.log'' @ ''.'' @ spec_YYYYMMDDHH march_5th_7h = ''app.log.2024030507'' \<and>
   rotatedFileName ''app.log'' march_5th_7h = ''app.log.20240305-07'' \<and>
   rotatedFileName ''app.log'' march_5th_7h \<noteq> ''app.log'' @ ''.'' @ spec_YYYYMMDDHH march_5th_7h"
  by (simp add: rotateLogFile_def Close_def Rename_def OpenFile_def rotatedFileName_def
      Format_march_5th_7h spec_march_5th_7h app_folder_def open_handle_def)





text \<open>The rotation of \<open>app.log\<close> in the folder of logger \<open>app\<close>.\<close>

theorem rotateLogFile_renames_witness:
  "\<exists>w' newLogFile.
     rotateLogFile app_folder open_handle ''app.log'' march_5th_7h = Inr (w', newLogFile) \<and>
     map_of (entries w') ''app.log.20240305-07'' = Some (Regular 120) \<and>
     map_of (entries w') ''app.log'' = Some (Regular 0) \<and>
     map_of (entries w') ''app.log.20240305-08'' = Some (Regular 4096) \<and>
     \<not> closed newLogFile \<and> file_size newLogFile = 0"
proof -
  have n: "rotatedFileName ''app.log'' march_5th_7h = ''app.log.20240305-07''"
    by (simp add: rotatedFileName_def Format_march_5th_7h)
  have h: "\<not> closed open_handle" "Fail_close \<notin> faults app_folder"
    "Fail_rename ''app.log'' \<notin> faults app_folder" "Fail_open ''app.log'' \<notin> faults app_folder"
    "map_of (entries app_folder) ''app.log'' = Some (Regular 120)"
    "map_of (entries app_folder) (rotatedFileName ''app.log'' march_5th_7h) \<noteq> Some Directory"
    "Year march_5th_7h < 10000" "Month march_5th_7h \<le> 12" "Day march_5th_7h \<le> 31"
    "Hour march_5th_7h \<le> 23"
    by (simp_all add: n open_handle_def app_folder_def march_5th_7h_def)
  have old: "map_of (entries app_folder) ''app.log.20240305-08'' = Some (Regular 4096)"
    by (simp add: app_folder_def)
  from rotateLogFile_renames [OF h]
  obtain w' newLogFile where
    "rotateLogFile app_folder open_handle ''app.log'' march_5th_7h = Inr (w', newLogFile)"
    "map_of (entries w') (rotatedFileName ''app.log'' march_5th_7h) = Some (Regular 120)"
    "map_of (entries w') ''app.log'' = Some (Regular 0)"
    "\<forall>x. x \<noteq> ''app.log'' \<and> x \<noteq> rotatedFileName ''app.log'' march_5th_7h \<longrightarrow>
         map_of (entries w') x = map_of (entries app_folder) x"
    "\<not> closed newLogFile" "file_size newLogFile = 0"
    by blast
  then show ?thesis
    using old unfolding n by (intro exI [of _ w'] exI [of _ newLogFile]) simp
qed


text \<open>
  Go's remainder is zero exactly for multiples of the divisor; and a whole number of hours
  that fits into a \<open>Duration\<close> comes back unchanged from \<open>int(d.Hours())\<close>.
\<close>

lemma smod_eq_0_iff_dvd: "((a::int) smod b = 0) = (b dvd a)"
proof -
  have "(a smod b = 0) = (sgn a * (\<bar>a\<bar> mod \<bar>b\<bar>) = 0)"
    by (simp only: smod_int_alt_def)
  also have "\<dots> = (a = 0 \<or> \<bar>a\<bar> mod \<bar>b\<bar> = 0)"
    by (auto simp: sgn_if)
  also have "\<dots> = (b dvd a)"
    by (auto simp: mod_eq_0_iff_dvd)
  finally show ?thesis .
qed

lemma pow2_nonpos: "e \<le> 0 \<Longrightarrow> pow2 e = 1 / 2 ^ nat (- e)"
  by (cases "e = 0") (simp_all add: pow2_def)

lemma round_half_even_of_int: "round_half_even (of_int j) = j"
  by (simp add: round_half_even_def Let_def)

lemma bitlen_1: "bitlen 1 = 1"
  by code_simp

lemma ilog2_of_int_le:
  assumes "0 < n" and "n < 2 ^ 53"
  shows "ilog2 (of_int n) \<le> 52"
proof -
  have "bitlen n \<le> 53"
    using assms by (simp add: bitlen_le_iff_power)
  then show ?thesis
    by (simp add: ilog2_def Let_def bitlen_1)
qed


lemma round_float64_of_int:
  assumes "0 < n" and "n < 2 ^ 53"
  shows "round_float64 (of_int n) = of_int n"
proof -
  define e where "e = ilog2 \<bar>of_int n\<bar> - 52"
  have abs: "\<bar>(of_int n :: rat)\<bar> = of_int n" using assms by simp
  have "e \<le> 0" using ilog2_of_int_le [OF assms] by (simp add: e_def abs)
  then have u: "pow2 e = 1 / 2 ^ nat (- e)" by (rule pow2_nonpos)
  have "(of_int n :: rat) / pow2 e = of_int (n * 2 ^ nat (- e))"
    by (simp add: u)
  then have "of_int (round_half_even (of_int n / pow2 e)) * pow2 e
               = (of_int (n * 2 ^ nat (- e)) :: rat) * pow2 e"
    by (simp only: round_half_even_of_int)
  also have "\<dots> = of_int n" by (simp add: u)
  finally have "of_int (round_half_even (of_int n / pow2 e)) * pow2 e = (of_int n :: rat)" .
  moreover have "(of_int n :: rat) \<noteq> 0" using assms by simp
  ultimately show ?thesis
    unfolding round_float64_def Let_def e_def by simp
qed

lemma sint_logRotationInterval:
  assumes "1 \<le> n" and "n \<le> 2562047"
  shows "sint (logRotationInterval n) = n * 3600000000000"
proof -
  have "logRotationInterval n = word_of_int (n * 3600000000000)"
    by (simp add: logRotationInterval_def time_Hour_def)
  then have "sint (logRotationInterval n) = signed_take_bit 63 (n * 3600000000000)"
    by (simp only: sint_sbintrunc') simp
  moreover have "signed_take_bit 63 (n * 3600000000000) = n * 3600000000000"
    using assms by (intro signed_take_bit_int_eq_self) simp_all
  ultimately show ?thesis by (simp only:)
qed


lemma whole_hours_sdiv:
  assumes "1 \<le> n"
  shows "(n * 3600000000000) sdiv 3600000000000 = (n::int)"
    and "(n * 3600000000000) smod 3600000000000 = (0::int)"
proof -
  have nn: "0 \<le> n * 3600000000000" using assms by simp
  show "(n * 3600000000000) sdiv 3600000000000 = n"
    using assms nn by (simp add: signed_divide_int_def sgn_if)
  show "(n * 3600000000000) smod 3600000000000 = 0"
    by (simp only: smod_eq_0_iff_dvd dvd_triv_right)
qed

lemma round_float64_0: "round_float64 0 = 0"
  by (simp add: round_float64_def)

lemma Hours_of_whole_hours:
  assumes "1 \<le> n" and "n \<le> 2562047"
  shows "int_of_float64 (Hours (logRotationInterval n)) = n"
proof -
  have s: "sint (logRotationInterval n) = n * 3600000000000"
    by (rule sint_logRotationInterval [OF assms])
  have h: "sint time_Hour = 3600000000000" by (simp add: time_Hour_def)
  have "n < 2 ^ 53" using assms by simp
  then have r: "round_float64 (of_int n) = of_int n"
    using assms by (intro round_float64_of_int) simp_all
  have "Hours (logRotationInterval n) =
          round_float64 (round_float64 (of_int n) +
            round_float64 (round_float64 (of_int 0) / 3600000000000))"
    unfolding Hours_def Let_def s h whole_hours_sdiv [OF assms(1)] ..
  also have "\<dots> = of_int n"
    by (simp add: r round_float64_0)
  finally have "Hours (logRotationInterval n) = of_int n" .
  then show ?thesis using assms by (simp add: int_of_float64_def)
qed



lemma Hours_0: "Hours 0 = 0"
  by (simp add: Hours_def round_float64_0 Let_def)

lemma int_of_float64_0: "int_of_float64 0 = 0"
  by (simp add: int_of_float64_def)

lemma interval_2_51: "logRotationInterval 2251799813685248 = 0"
  by (simp add: logRotationInterval_def time_Hour_def)

lemma hours_5124096: "int_of_float64 (Hours (logRotationInterval 5124096)) = 0"
  by code_simp


text \<open>
  Claim C10 fails on the code. \<open>Validate\<close> accepts every positive
  \<open>RotationIntervalHour\<close>, but \<open>time.Duration(n) * time.Hour\<close> wraps around in 64 bits: for
  \<open>n = 2251799813685248\<close> (2 to the 51) the product is 0 nanoseconds, the divisor
  \<open>int(rotationInterval.Hours())\<close> is 0, and the pass that sees the hour change divides by
  zero. For \<open>n = 5124096\<close>, which also fits a 32-bit \<open>int\<close>, the product wraps to less
  than an hour and the divisor is 0 as well.
\<close>

theorem accepted_interval_divides_by_zero:
  "Validate (minimal_config\<lparr>RotationBySize := False,
       RotationIntervalHour := 2251799813685248\<rparr>) = None \<and>
   logRotationInterval 2251799813685248 = 0 \<and>
   int_of_float64 (Hours (logRotationInterval 2251799813685248)) = 0 \<and>
   rotation_pass False False 10 3 (logRotationInterval 2251799813685248) ''app.log''
       (march_5th_7h\<lparr>Hour := 8\<rparr>) (march_5th_7h\<lparr>Hour := 8\<rparr>)
       \<lparr>fs = app_folder, logFile = open_handle, lastHour = 7\<rparr> = Aborted Divide_by_zero \<and>
   Validate (minimal_config\<lparr>RotationBySize := False, RotationIntervalHour := 5124096\<rparr>)
     = None \<and>
   int_of_float64 (Hours (logRotationInterval 5124096)) = 0"
  by (simp add: Validate_def minimal_config_def ToLower_info interval_2_51 Hours_0
      int_of_float64_0 rotation_pass_def march_5th_7h_def hours_5124096)

text \<open>
  An interval of 6 hours: the pass at 12 o'clock after 11 rotates, the pass at 13 o'clock
  after 12 only records the hour.
\<close>

lemma Format_march_5th_12h: "Format_20060102_15 (march_5th_7h\<lparr>Hour := 12\<rparr>) = ''20240305-12''"
  by code_simp


text \<open>
  The rest of claim C10: with an interval of 0 hours the modulo divides by zero at the
  first change of hour; and for accepted configurations whose interval is at most 2562047
  hours (the largest that fits into a \<open>Duration\<close>) the divisor is at least 1.
\<close>

lemma zero_interval_divides_by_zero:
  "int (Hour now) \<noteq> lastHour t \<Longrightarrow>
   rotation_pass False False maxSize maxLogFiles (logRotationInterval 0) fileName now
     now_rotate t = Aborted Divide_by_zero"
  by (simp add: rotation_pass_def logRotationInterval_def Hours_0 int_of_float64_0)

lemma accepted_interval_in_range:
  assumes "Validate c = None" and "\<not> RotationBySize c"
    and "RotationIntervalHour c \<le> 2562047"
  shows "1 \<le> int_of_float64 (Hours (logRotationInterval (RotationIntervalHour c)))"
proof -
  have "1 \<le> RotationIntervalHour c"
    using assms(1,2) by (simp add: Validate_def Let_def split: if_splits)
  then show ?thesis using assms(3) by (simp add: Hours_of_whole_hours)
qed


text \<open>
  The defect of claim C1 in ordinary operation: with a retention count of 2, the rotation
  that produces the second rotated file of logger \<open>app\<close> is followed by a cleanup that
  deletes the fresh \<open>app.log\<close> it has just opened.
\<close>

lemma rotation_deletes_fresh_log_file:
  "rotate_then_cleanup
     (app_folder\<lparr>entries := [(''app.log'', Regular 120), (''app.log.20240305-07'', Regular 4096)]\<rparr>)
     open_handle ''app.log'' 2 (march_5th_7h\<lparr>Hour := 12\<rparr>) =
   Inr (app_folder\<lparr>entries := [(''app.log.20240305-12'', Regular 120),
                                (''app.log.20240305-07'', Regular 4096)]\<rparr>,
        \<lparr>closed = False, file_size = 0\<rparr>)"
  by (simp add: rotate_then_cleanup_def rotateLogFile_def Close_def Rename_def OpenFile_def
      rotatedFileName_def Format_march_5th_12h cleanupLogFiles_def ReadDir_def
      collect_logFiles_def filesToDelete_def Remove_def app_folder_def open_handle_def)
end
